theory Spec2Isabelle
  imports
    Main
    "HOL-Library.Char_ord"
    "HOL-Library.List_Lexorder"
    "HOL-Library.Product_Lexorder"
begin

section \<open>The query variable reducer (queryVariablesReducer.ts)\<close>

text \<open>
  A shallow embedding of \<^verbatim>\<open>public/app/features/templating/state/queryVariablesReducer.ts\<close>:
  the option sorter, the result normalizer, the post-processing steps, the per-instance
  reducer and the collection router. Every \<^verbatim>\<open>throw\<close> of the source is a value
  \<open>Inl e\<close> of the result type \<open>error + 'a\<close>.
\<close>

subsection \<open>JavaScript values\<close>

text \<open>
  The fields \<^verbatim>\<open>text\<close> and \<^verbatim>\<open>value\<close> of an option are strings in the type
  declaration, but the normalizer copies \<^verbatim>\<open>undefined\<close> and \<^verbatim>\<open>null\<close> into them when a raw
  result carries neither field, so both are values of the model. Strict equality
  (\<^verbatim>\<open>===\<close>) and lodash's SameValueZero coincide with HOL equality on this type.
\<close>

datatype jsval = JUndefined | JNull | JStr string

text \<open>\<^verbatim>\<open>string | string[]\<close>: the fields of the current selection and the link text.\<close>

datatype jsfield = Scalar jsval | Arr "jsval list"

text \<open>
  A field of a raw result (\<^verbatim>\<open>any\<close> in the source). The only operation the source applies
  to a number is \<^verbatim>\<open>toString()\<close>, so a number is represented by the string that
  \<^verbatim>\<open>toString()\<close> returns for it.
\<close>

datatype rawval = RUndefined | RNull | RNum string | RStr string

datatype error = TypeError | RegexError

subsection \<open>The data model\<close>

text \<open>
  Modelled from the spec: the interfaces \<^verbatim>\<open>VariableOption\<close>, \<^verbatim>\<open>VariableTag\<close>,
  \<^verbatim>\<open>QueryVariableModel\<close> and the enum \<^verbatim>\<open>VariableSort\<close> are declared in
  \<^verbatim>\<open>../variable\<close>, a module outside this file. The records follow the spec's
  data model (Option, Tag, CurrentSelection, Instance) and the fields the reducer
  reads and writes. An optional field that the reducer only ever writes as \<^verbatim>\<open>true\<close>
  (\<^verbatim>\<open>isNone\<close>) is a \<open>bool\<close>, absent being \<open>False\<close>; an absent \<^verbatim>\<open>tags\<close> or
  \<^verbatim>\<open>values\<close> array is \<open>None\<close>.
\<close>

record VariableOption =
  text_opt :: jsval
  value_opt :: jsval
  selected_opt :: bool
  isNone :: bool

record VariableTag =
  text_tag :: rawval
  selected_tag :: bool
  values_tag :: "jsval list option"

record CurrentSelection =
  text_cur :: jsfield
  value_cur :: jsfield
  tags_cur :: "VariableTag list option"

text \<open>
  Modelled from the spec: the class \<^verbatim>\<open>Deferred\<close> of \<^verbatim>\<open>../deferred\<close> lies outside this
  file. The spec gives the lock exactly two states, pending and resolved, and
  makes \<^verbatim>\<open>resolve()\<close> move a pending lock to resolved and leave a resolved one as it is.
\<close>

datatype Deferred = Pending | Resolved

fun resolve :: "Deferred \<Rightarrow> Deferred" where
  "resolve Pending = Resolved"
| "resolve Resolved = Resolved"

record QueryVariableModel =
  global_var :: bool
  index_var :: int
  type_var :: string
  name_var :: string
  label_var :: "string option"
  hide_var :: nat
  skipUrlSync :: bool
  datasource :: "string option"
  query_var :: string
  regex_var :: string
  sort_var :: nat
  refresh_var :: nat
  multi :: bool
  includeAll :: bool
  allValue :: "string option"
  options_var :: "VariableOption list"
  current :: CurrentSelection
  tags_var :: "VariableTag list"
  useTags :: bool
  tagsQuery :: string
  tagValuesQuery :: string
  definition_var :: string
  initLock :: "Deferred option"

record QueryVariablePickerState =
  showDropDown :: bool
  linkText :: jsfield
  selectedValues :: "VariableOption list"
  selectedTags :: "VariableTag list"
  searchQuery :: "string option"
  searchOptions :: "VariableOption list"
  highlightIndex :: int
  tags_picker :: "VariableTag list"
  options_picker :: "VariableOption list"
  queryHasSearchFilter :: bool
  oldVariableText :: jsfield

record QueryVariableState =
  picker :: QueryVariablePickerState
  variable :: QueryVariableModel

definition initialQueryVariablePickerState :: QueryVariablePickerState where
  "initialQueryVariablePickerState =
    \<lparr> showDropDown = False,
      linkText = Scalar JNull,
      selectedValues = [],
      selectedTags = [],
      searchQuery = None,
      searchOptions = [],
      highlightIndex = -1,
      tags_picker = [],
      options_picker = [],
      queryHasSearchFilter = False,
      oldVariableText = Scalar JNull \<rparr>"

text \<open>
  \<^verbatim>\<open>current: {} as VariableOption\<close>: every field of the initial selection is
  \<^verbatim>\<open>undefined\<close>. \<^verbatim>\<open>VariableHide.dontHide\<close>, \<^verbatim>\<open>VariableSort.disabled\<close> and
  \<^verbatim>\<open>VariableRefresh.never\<close> are the first members of their enums, 0.
\<close>

definition initialQueryVariableModelState :: QueryVariableModel where
  "initialQueryVariableModelState =
    \<lparr> global_var = False,
      index_var = -1,
      type_var = ''query'',
      name_var = '''',
      label_var = None,
      hide_var = 0,
      skipUrlSync = False,
      datasource = None,
      query_var = '''',
      regex_var = '''',
      sort_var = 0,
      refresh_var = 0,
      multi = False,
      includeAll = False,
      allValue = None,
      options_var = [],
      current = \<lparr> text_cur = Scalar JUndefined, value_cur = Scalar JUndefined, tags_cur = None \<rparr>,
      tags_var = [],
      useTags = False,
      tagsQuery = '''',
      tagValuesQuery = '''',
      definition_var = '''',
      initLock = None \<rparr>"

definition initialQueryVariableState :: QueryVariableState where
  "initialQueryVariableState =
    \<lparr> picker = initialQueryVariablePickerState, variable = initialQueryVariableModelState \<rparr>"

definition ALL_VARIABLE_TEXT :: string where "ALL_VARIABLE_TEXT = ''All''"
definition ALL_VARIABLE_VALUE :: string where "ALL_VARIABLE_VALUE = ''$__all''"
definition NONE_VARIABLE_TEXT :: string where "NONE_VARIABLE_TEXT = ''None''"
definition NONE_VARIABLE_VALUE :: string where "NONE_VARIABLE_VALUE = ''''"

subsection \<open>The option sorter\<close>

text \<open>
  \<^verbatim>\<open>_.sortBy\<close> is lodash's stable ascending sort by the iteratee's value; \<open>sort_key\<close> is
  the stable insertion sort of the HOL library. Strings are compared as JavaScript
  compares them, code unit by code unit, which is the lexicographic order on
  \<open>char list\<close>; a \<open>char\<close> is one byte, so the model covers the strings whose code
  units are below 256.
\<close>

definition sortBy :: "('a \<Rightarrow> 'k::linorder) \<Rightarrow> 'a list \<Rightarrow> 'a list" where
  "sortBy iteratee collection = sort_key iteratee collection"

text \<open>
  \<^verbatim>\<open>_.sortBy(options, 'text')\<close>: lodash's \<^verbatim>\<open>compareAscending\<close> puts every defined value
  before \<^verbatim>\<open>null\<close> and \<^verbatim>\<open>null\<close> before \<^verbatim>\<open>undefined\<close>.
\<close>

fun textKey :: "VariableOption \<Rightarrow> nat \<times> string" where
  "textKey opt =
    (case text_opt opt of JStr s \<Rightarrow> (0, s) | JNull \<Rightarrow> (1, '''') | JUndefined \<Rightarrow> (2, ''''))"

definition isDigit :: "char \<Rightarrow> bool" where
  "isDigit c = (CHR ''0'' \<le> c \<and> c \<le> CHR ''9'')"

definition digitValue :: "char \<Rightarrow> int" where
  "digitValue c = int (of_char c) - 48"

definition decimalValue :: "string \<Rightarrow> int" where
  "decimalValue ds = foldl (\<lambda>n c. 10 * n + digitValue c) 0 ds"

text \<open>
  A JavaScript number is a double. The doubles that \<^verbatim>\<open>parseInt\<close> returns on a run of
  digits are integers or \<^verbatim>\<open>Infinity\<close>; the model represents an integer double by itself
  and \<^verbatim>\<open>Infinity\<close> by \<open>2 ^ 1024\<close>, which lies above every finite double, so that the
  order and the ties of the model are those of the doubles. \<open>toDouble\<close> rounds a
  natural number to the nearest double, a tie to the even significand: \<open>droppedBits\<close> is
  the number of low bits that do not fit into the 53 bits of the significand.
\<close>

function droppedBits :: "int \<Rightarrow> nat" where
  "droppedBits v = (if v < 2 ^ 53 then 0 else Suc (droppedBits (v div 2)))"
  by pat_completeness auto
termination
  by (relation "measure nat") auto

definition toDouble :: "int \<Rightarrow> int" where
  "toDouble v =
    (let e = droppedBits v;
         q = v div 2 ^ e;
         r = v mod 2 ^ e;
         rounded = (if 2 ^ e < 2 * r \<or> (2 * r = 2 ^ e \<and> odd q) then q + 1 else q) * 2 ^ e
     in if 2 ^ 1024 \<le> rounded then 2 ^ 1024 else rounded)"

text \<open>
  \<^verbatim>\<open>parseInt(matches[1], 10)\<close> on a run of decimal digits: the double nearest to the
  decimal value of the run, as the JavaScript engines compute it.
\<close>

definition parseInt10 :: "string \<Rightarrow> int" where
  "parseInt10 ds = toDouble (decimalValue ds)"

text \<open>
  \<^verbatim>\<open>opt.text.match(/.*?(\d+).*/)\<close>: the first group is the first maximal run of digits
  of the text; the match fails exactly when the text has no digit.
\<close>

definition numericKey :: "string \<Rightarrow> int" where
  "numericKey s =
    (let matches1 = takeWhile isDigit (dropWhile (\<lambda>c. \<not> isDigit c) s)
     in if matches1 = [] then -1 else parseInt10 matches1)"

fun textString :: "VariableOption \<Rightarrow> string option" where
  "textString opt = (case text_opt opt of JStr s \<Rightarrow> Some s | _ \<Rightarrow> None)"

text \<open>
  \<^verbatim>\<open>_.toLower\<close> turns \<^verbatim>\<open>undefined\<close> and \<^verbatim>\<open>null\<close> into the empty string and applies
  \<^verbatim>\<open>toLowerCase\<close> to a string. On the code units below 256 the capital letters are
  \<open>A\<close> to \<open>Z\<close> and the code units \<open>0xC0\<close> to \<open>0xDE\<close> other than the multiplication sign
  \<open>0xD7\<close>; the small letter of each is 32 code units above it.
\<close>

definition toLowerChar :: "char \<Rightarrow> char" where
  "toLowerChar c =
    (if (CHR ''A'' \<le> c \<and> c \<le> CHR ''Z'')
        \<or> (CHR 0xC0 \<le> c \<and> c \<le> CHR 0xDE \<and> c \<noteq> CHR 0xD7)
     then char_of (of_char c + (32::nat)) else c)"

fun toLower :: "jsval \<Rightarrow> string" where
  "toLower (JStr s) = map toLowerChar s"
| "toLower JNull = ''''"
| "toLower JUndefined = ''''"

text \<open>
  \<^verbatim>\<open>VariableSort\<close> is a numeric enum, \<^verbatim>\<open>disabled\<close> being 0; \<^verbatim>\<open>Math.ceil(sortOrder / 2)\<close>
  is \<open>(sortOrder + 1) div 2\<close> on naturals. With sort type 2 the iteratee calls
  \<^verbatim>\<open>opt.text.match\<close>, which throws a TypeError on a text that is \<^verbatim>\<open>undefined\<close> or
  \<^verbatim>\<open>null\<close>.
\<close>

definition sortVariableValues :: "VariableOption list \<Rightarrow> nat \<Rightarrow> error + VariableOption list" where
  "sortVariableValues opts sortOrder =
    (if sortOrder = 0 then Inr opts
     else
       let sortType = (sortOrder + 1) div 2;
           reverseSort = (sortOrder mod 2 = 0)
       in case (if sortType = 1 then Inr (sortBy textKey opts)
                else if sortType = 2 then
                  (if list_all (\<lambda>opt. textString opt \<noteq> None) opts
                   then Inr (sortBy (\<lambda>opt. numericKey (the (textString opt))) opts)
                   else Inl TypeError)
                else if sortType = 3 then Inr (sortBy (\<lambda>opt. toLower (text_opt opt)) opts)
                else Inr opts) of
            Inl e \<Rightarrow> Inl e
          | Inr ordered \<Rightarrow> Inr (if reverseSort then rev ordered else ordered))"

subsection \<open>The result normalizer\<close>

text \<open>
  The collaborators of the normalizer are parameters of the model:
  \<^verbatim>\<open>templateSrv.replace(variableRegEx, {}, 'regex')\<close>, \<^verbatim>\<open>stringToJsRegex\<close>, which throws on
  a text that is no regular expression, and \<^verbatim>\<open>regex.exec\<close>. A regular expression
  object carries state (\<^verbatim>\<open>lastIndex\<close> under the flags g and y), so \<open>regexExec\<close> returns
  the object's next state with the match array (\<open>None\<close> is \<^verbatim>\<open>null\<close>).
\<close>

record 'r collaborators =
  templateSrvReplace :: "string \<Rightarrow> string"
  stringToJsRegex :: "string \<Rightarrow> error + 'r"
  regexExec :: "'r \<Rightarrow> jsval \<Rightarrow> jsval list option \<times> 'r"

text \<open>\<^verbatim>\<open>_.isNumber(v) ? v.toString() : v\<close>\<close>

fun stringifyNumber :: "rawval \<Rightarrow> jsval" where
  "stringifyNumber (RNum s) = JStr s"
| "stringifyNumber (RStr s) = JStr s"
| "stringifyNumber RNull = JNull"
| "stringifyNumber RUndefined = JUndefined"

record RawResult =
  text_item :: rawval
  value_item :: rawval

definition isNullish :: "rawval \<Rightarrow> bool" where
  "isNullish v = (v = RUndefined \<or> v = RNull)"

text \<open>The text and the value of one raw result, before the regular expression is applied.\<close>

definition itemText :: "RawResult \<Rightarrow> jsval" where
  "itemText item =
    stringifyNumber (if isNullish (text_item item) then value_item item else text_item item)"

definition itemValue :: "RawResult \<Rightarrow> jsval" where
  "itemValue item =
    stringifyNumber (if isNullish (value_item item) then text_item item else value_item item)"

definition newOption :: "jsval \<Rightarrow> jsval \<Rightarrow> VariableOption" where
  "newOption t v = \<lparr> text_opt = t, value_opt = v, selected_opt = False, isNone = False \<rparr>"

text \<open>The \<^verbatim>\<open>for\<close> loop of \<^verbatim>\<open>metricNamesToVariableValues\<close>, the pushed options in order.\<close>

fun collectOptions ::
  "'r collaborators \<Rightarrow> 'r option \<Rightarrow> RawResult list \<Rightarrow> VariableOption list" where
  "collectOptions lib regex [] = []"
| "collectOptions lib regex (item # rest) =
    (let text = itemText item; value = itemValue item
     in case regex of
          None \<Rightarrow> newOption text value # collectOptions lib None rest
        | Some r \<Rightarrow>
            (case regexExec lib r value of
               (None, r') \<Rightarrow> collectOptions lib (Some r') rest
             | (Some matches, r') \<Rightarrow>
                 (case matches of
                    m0 # m1 # ms \<Rightarrow> newOption m1 m1
                  | _ \<Rightarrow> newOption text value) # collectOptions lib (Some r') rest))"

text \<open>
  \<^verbatim>\<open>_.uniqBy\<close>: lodash's \<^verbatim>\<open>baseUniq\<close> walks the array once and keeps an element when
  its key is not among the keys seen so far.
\<close>

fun baseUniq :: "('a \<Rightarrow> 'k) \<Rightarrow> 'k list \<Rightarrow> 'a list \<Rightarrow> 'a list" where
  "baseUniq iteratee seen [] = []"
| "baseUniq iteratee seen (x # xs) =
    (if iteratee x \<in> set seen then baseUniq iteratee seen xs
     else x # baseUniq iteratee (iteratee x # seen) xs)"

definition uniqBy :: "('a \<Rightarrow> 'k) \<Rightarrow> 'a list \<Rightarrow> 'a list" where
  "uniqBy iteratee array = baseUniq iteratee [] array"

definition metricNamesToVariableValues ::
  "'r collaborators \<Rightarrow> string \<Rightarrow> nat \<Rightarrow> RawResult list \<Rightarrow> error + VariableOption list" where
  "metricNamesToVariableValues lib variableRegEx sortOrder metricNames =
    (case (if variableRegEx \<noteq> ''''
           then map_sum id Some (stringToJsRegex lib (templateSrvReplace lib variableRegEx))
           else Inr None) of
       Inl e \<Rightarrow> Inl e
     | Inr regex \<Rightarrow>
         sortVariableValues (uniqBy value_opt (collectOptions lib regex metricNames)) sortOrder)"

subsection \<open>The post-processing steps\<close>

text \<open>\<^verbatim>\<open>Array.prototype.findIndex\<close>: the first index whose element passes, or -1.\<close>

fun findIndex :: "('a \<Rightarrow> bool) \<Rightarrow> 'a list \<Rightarrow> int" where
  "findIndex p [] = -1"
| "findIndex p (x # xs) =
    (if p x then 0 else (let i = findIndex p xs in if i = -1 then -1 else i + 1))"

text \<open>\<^verbatim>\<open>Array.prototype.join\<close> writes \<^verbatim>\<open>undefined\<close> and \<^verbatim>\<open>null\<close> as the empty string.\<close>

fun joinString :: "jsval \<Rightarrow> string" where
  "joinString (JStr s) = s"
| "joinString JNull = ''''"
| "joinString JUndefined = ''''"

fun join :: "jsval list \<Rightarrow> string \<Rightarrow> string" where
  "join [] sep = ''''"
| "join [x] sep = joinString x"
| "join (x # y # ys) sep = joinString x @ sep @ join (y # ys) sep"

text \<open>
  The \<^verbatim>\<open>for\<close> loop over \<^verbatim>\<open>current.tags\<close> in the filter of \<^verbatim>\<open>updateLinkText\<close>:
  \<open>Inr True\<close> when a tag lists the value (the callback returns \<^verbatim>\<open>false\<close>), \<open>Inr False\<close>
  when the loop ends. \<^verbatim>\<open>tag.values.findIndex\<close> throws a TypeError on a tag without
  \<^verbatim>\<open>values\<close>.
\<close>

fun inSomeTag :: "VariableTag list \<Rightarrow> jsval \<Rightarrow> error + bool" where
  "inSomeTag [] v = Inr False"
| "inSomeTag (tag # rest) v =
    (case values_tag tag of
       None \<Rightarrow> Inl TypeError
     | Some vs \<Rightarrow> if findIndex (\<lambda>x. x = v) vs \<noteq> -1 then Inr True else inSomeTag rest v)"

text \<open>\<^verbatim>\<open>options.filter\<close> with a callback that may throw: the first throw ends the filter.\<close>

fun selectedAndNotInTag ::
  "VariableTag list \<Rightarrow> VariableOption list \<Rightarrow> error + VariableOption list" where
  "selectedAndNotInTag tags [] = Inr []"
| "selectedAndNotInTag tags (opt # rest) =
    (if \<not> selected_opt opt then selectedAndNotInTag tags rest
     else case inSomeTag tags (value_opt opt) of
            Inl e \<Rightarrow> Inl e
          | Inr found \<Rightarrow>
              (case selectedAndNotInTag tags rest of
                 Inl e \<Rightarrow> Inl e
               | Inr kept \<Rightarrow> Inr (if found then kept else opt # kept)))"

definition updateLinkText :: "QueryVariableState \<Rightarrow> error + QueryVariableState" where
  "updateLinkText state =
    (let cur = current (variable state); opts = options_var (variable state)
     in case tags_cur cur of
          None \<Rightarrow> Inr (state\<lparr>picker := (picker state)\<lparr>linkText := text_cur cur\<rparr>\<rparr>)
        | Some tags \<Rightarrow>
            if length tags = 0
            then Inr (state\<lparr>picker := (picker state)\<lparr>linkText := text_cur cur\<rparr>\<rparr>)
            else
              (case selectedAndNotInTag tags opts of
                 Inl e \<Rightarrow> Inl e
               | Inr kept \<Rightarrow>
                   (let currentTexts = map text_opt kept;
                        newLinkText = join currentTexts '' + ''
                    in Inr (state\<lparr>picker := (picker state)
                         \<lparr>linkText := Scalar (JStr (if length newLinkText > 0
                                                     then newLinkText @ '' + ''
                                                     else newLinkText))\<rparr>\<rparr>))))"

definition updateSelectedValues :: "QueryVariableState \<Rightarrow> QueryVariableState" where
  "updateSelectedValues state =
    state\<lparr>picker := (picker state)
      \<lparr>selectedValues := filter selected_opt (options_var (variable state))\<rparr>\<rparr>"

definition updateSelectedTags :: "QueryVariableState \<Rightarrow> QueryVariableState" where
  "updateSelectedTags state =
    state\<lparr>picker := (picker state)
      \<lparr>selectedTags := filter selected_tag (tags_var (variable state))\<rparr>\<rparr>"

definition updateOptions :: "QueryVariableState \<Rightarrow> QueryVariableState" where
  "updateOptions state =
    state\<lparr>picker := (picker state)
      \<lparr>options_picker :=
         take (min (length (options_var (variable state))) 1000) (options_var (variable state))\<rparr>\<rparr>"

text \<open>
  \<^verbatim>\<open>args.reduce((all, cur) => cur(all), state)\<close>; a step that throws ends the reduction.
\<close>

fun appyStateChanges :: "'s \<Rightarrow> ('s \<Rightarrow> error + 's) list \<Rightarrow> error + 's" where
  "appyStateChanges state [] = Inr state"
| "appyStateChanges state (cur # args) =
    (case cur state of Inl e \<Rightarrow> Inl e | Inr all \<Rightarrow> appyStateChanges all args)"

subsection \<open>Events\<close>

text \<open>
  The actions of \<^verbatim>\<open>./actions\<close> that the reducer matches, one constructor for each, with
  the fields of the payload that the reducer reads. \<open>OtherAction\<close> is any action that
  no matcher accepts. The type and the name of the variable an action is about are
  its \<open>VariableIdentifier\<close>.
\<close>

record VariableIdentifier =
  type_id :: string
  name_id :: string

record KeyEvent =
  ctrlKey :: bool
  metaKey :: bool
  shiftKey :: bool

datatype action =
    AddVariable bool int QueryVariableModel
  | UpdateVariableOptions VariableIdentifier "RawResult list"
  | UpdateVariableTags VariableIdentifier "RawResult list"
  | SetCurrentVariableValue VariableIdentifier CurrentSelection
  | SetInitLock VariableIdentifier
  | ResolveInitLock VariableIdentifier
  | RemoveInitLock VariableIdentifier
  | SelectVariableOption VariableIdentifier VariableOption bool KeyEvent
  | ShowQueryVariableDropDown VariableIdentifier
  | HideQueryVariableDropDown VariableIdentifier
  | OtherAction

subsection \<open>The instance reducer\<close>

fun isArray :: "jsfield \<Rightarrow> bool" where
  "isArray (Arr xs) = True"
| "isArray (Scalar v) = False"

fun elements :: "jsfield \<Rightarrow> jsval list" where
  "elements (Arr xs) = xs"
| "elements (Scalar v) = []"

text \<open>\<^verbatim>\<open>xs[0]\<close>, which is \<^verbatim>\<open>undefined\<close> on an empty array.\<close>

fun first :: "jsval list \<Rightarrow> jsval" where
  "first [] = JUndefined"
| "first (x # xs) = x"

text \<open>
  The first statements of the \<^verbatim>\<open>setCurrentVariableValue\<close> branch: the text of the
  payload's selection is joined when it is a non-empty array, and taken from the values
  when these are an array that does not start with the All value.
\<close>

definition joinCurrentText :: "CurrentSelection \<Rightarrow> CurrentSelection" where
  "joinCurrentText cur =
    (if isArray (text_cur cur) \<and> length (elements (text_cur cur)) > 0
     then cur\<lparr>text_cur := Scalar (JStr (join (elements (text_cur cur)) '' + ''))\<rparr>
     else if isArray (value_cur cur) \<and> first (elements (value_cur cur)) \<noteq> JStr ALL_VARIABLE_VALUE
     then cur\<lparr>text_cur := Scalar (JStr (join (elements (value_cur cur)) '' + ''))\<rparr>
     else cur)"

text \<open>The callback of \<^verbatim>\<open>state.variable.options.map\<close> in the same branch.\<close>

definition selectCurrent :: "CurrentSelection \<Rightarrow> VariableOption \<Rightarrow> VariableOption" where
  "selectCurrent cur opt =
    opt\<lparr>selected_opt :=
      (case value_cur cur of
         Arr vs \<Rightarrow> list_ex (\<lambda>v. value_opt opt = v) vs
       | Scalar v \<Rightarrow> value_opt opt = v)\<rparr>"

text \<open>
  The option list of the \<^verbatim>\<open>selectVariableOption\<close> branch: the callback of
  \<^verbatim>\<open>state.variable.options.map\<close>, then the assignment
  \<^verbatim>\<open>newOptions[0].selected = true\<close> when the list is not empty and nothing in it is
  selected.
\<close>

definition toggleOption ::
  "bool \<Rightarrow> VariableOption \<Rightarrow> bool \<Rightarrow> KeyEvent \<Rightarrow> VariableOption \<Rightarrow> VariableOption" where
  "toggleOption isMulti chosen forceSelect event opt =
    (if value_opt opt \<noteq> value_opt chosen
     then opt\<lparr>selected_opt :=
            (if text_opt opt = JStr ALL_VARIABLE_TEXT \<or> text_opt chosen = JStr ALL_VARIABLE_TEXT
             then False
             else if \<not> isMulti then False
             else if ctrlKey event \<or> metaKey event \<or> shiftKey event then False
             else selected_opt opt)\<rparr>
     else opt\<lparr>selected_opt :=
            (if forceSelect then True else if isMulti then \<not> selected_opt chosen else True)\<rparr>)"

definition selectNewOptions ::
  "bool \<Rightarrow> VariableOption \<Rightarrow> bool \<Rightarrow> KeyEvent \<Rightarrow> VariableOption list \<Rightarrow> VariableOption list" where
  "selectNewOptions isMulti chosen forceSelect event opts =
    (let newOptions = map (toggleOption isMulti chosen forceSelect event) opts
     in if length newOptions > 0 \<and> length (filter selected_opt newOptions) = 0
        then newOptions[0 := (newOptions ! 0)\<lparr>selected_opt := True\<rparr>]
        else newOptions)"

text \<open>
  \<open>initLock.resolve()\<close> on a lock that is \<^verbatim>\<open>null\<close> or \<^verbatim>\<open>undefined\<close> throws a
  TypeError. The lock is an object that the old and the new state share; the model
  records its state in the state that is returned.
\<close>

fun queryVariableReducer ::
  "'r collaborators \<Rightarrow> QueryVariableState \<Rightarrow> action \<Rightarrow> error + QueryVariableState" where
  "queryVariableReducer lib state (AddVariable glob idx model) =
    Inr (state\<lparr>variable := (variable state)
      \<lparr> global_var := glob,
        index_var := idx,
        type_var := type_var model,
        name_var := name_var model,
        label_var := label_var model,
        hide_var := hide_var model,
        skipUrlSync := skipUrlSync model,
        datasource := datasource model,
        query_var := query_var model,
        regex_var := regex_var model,
        sort_var := sort_var model,
        refresh_var := refresh_var model,
        multi := multi model,
        includeAll := includeAll model,
        allValue := allValue model,
        options_var := options_var model,
        current := current model,
        tags_var := tags_var model,
        useTags := useTags model,
        tagsQuery := tagsQuery model,
        tagValuesQuery := tagValuesQuery model,
        definition_var := definition_var model \<rparr>\<rparr>)"
| "queryVariableReducer lib state (UpdateVariableOptions ident results) =
    (case metricNamesToVariableValues lib (regex_var (variable state))
            (sort_var (variable state)) results of
       Inl e \<Rightarrow> Inl e
     | Inr opts \<Rightarrow>
         (let withAll =
                (if includeAll (variable state)
                 then newOption (JStr ALL_VARIABLE_TEXT) (JStr ALL_VARIABLE_VALUE) # opts
                 else opts);
              withNone =
                (if length withAll = 0
                 then withAll @ [\<lparr> text_opt = JStr NONE_VARIABLE_TEXT,
                                   value_opt = JStr NONE_VARIABLE_VALUE,
                                   selected_opt = False, isNone = True \<rparr>]
                 else withAll)
          in Inr (state\<lparr>variable := (variable state)\<lparr>options_var := withNone\<rparr>\<rparr>)))"
| "queryVariableReducer lib state (UpdateVariableTags ident results) =
    Inr (state\<lparr>variable := (variable state)
      \<lparr>tags_var :=
         map (\<lambda>r. \<lparr> text_tag = text_item r, selected_tag = False, values_tag = None \<rparr>) results\<rparr>\<rparr>)"
| "queryVariableReducer lib state (SetCurrentVariableValue ident cur0) =
    (let cur = joinCurrentText cur0;
         newState = state\<lparr>variable := (variable state)
           \<lparr> current := cur,
             options_var := map (selectCurrent cur) (options_var (variable state)) \<rparr>\<rparr>
     in appyStateChanges newState
          [updateLinkText, \<lambda>s. Inr (updateOptions s), \<lambda>s. Inr (updateSelectedValues s),
           \<lambda>s. Inr (updateSelectedTags s)])"
| "queryVariableReducer lib state (SetInitLock ident) =
    Inr (state\<lparr>variable := (variable state)\<lparr>initLock := Some Pending\<rparr>\<rparr>)"
| "queryVariableReducer lib state (ResolveInitLock ident) =
    (case initLock (variable state) of
       None \<Rightarrow> Inl TypeError
     | Some lock \<Rightarrow> Inr (state\<lparr>variable := (variable state)\<lparr>initLock := Some (resolve lock)\<rparr>\<rparr>))"
| "queryVariableReducer lib state (RemoveInitLock ident) =
    Inr (state\<lparr>variable := (variable state)\<lparr>initLock := None\<rparr>\<rparr>)"
| "queryVariableReducer lib state (SelectVariableOption ident chosen forceSelect event) =
    (let newOptions = selectNewOptions (multi (variable state)) chosen forceSelect event
                        (options_var (variable state));
         newState = state\<lparr>variable := (variable state)\<lparr>options_var := newOptions\<rparr>\<rparr>
     in appyStateChanges newState
          [updateLinkText, \<lambda>s. Inr (updateOptions s), \<lambda>s. Inr (updateSelectedValues s),
           \<lambda>s. Inr (updateSelectedTags s)])"
| "queryVariableReducer lib state (ShowQueryVariableDropDown ident) =
    (let oldText = text_cur (current (variable state));
         query = (if queryHasSearchFilter (picker state)
                    \<and> searchQuery (picker state) \<noteq> None
                    \<and> searchQuery (picker state) \<noteq> Some ''''
                  then searchQuery (picker state) else Some '''');
         newState = state\<lparr>picker := (picker state)
           \<lparr> oldVariableText := oldText,
             highlightIndex := -1,
             searchQuery := query,
             showDropDown := True \<rparr>\<rparr>
     in appyStateChanges newState
          [updateLinkText, \<lambda>s. Inr (updateOptions s), \<lambda>s. Inr (updateSelectedValues s),
           \<lambda>s. Inr (updateSelectedTags s)])"
| "queryVariableReducer lib state (HideQueryVariableDropDown ident) =
    (let newState = state\<lparr>picker := (picker state)\<lparr>showDropDown := False\<rparr>\<rparr>
     in appyStateChanges newState
          [updateLinkText, \<lambda>s. Inr (updateOptions s), \<lambda>s. Inr (updateSelectedValues s),
           \<lambda>s. Inr (updateSelectedTags s)])"
| "queryVariableReducer lib state OtherAction = Inr state"

text \<open>
  The states an instance can be in: the reducer starts from
  \<open>initialQueryVariableState\<close> (its default parameter) and is applied to one event after
  the other; an event on which it throws ends the run.
\<close>

fun runEvents ::
  "'r collaborators \<Rightarrow> QueryVariableState \<Rightarrow> action list \<Rightarrow> error + QueryVariableState" where
  "runEvents lib state [] = Inr state"
| "runEvents lib state (a # as) =
    (case queryVariableReducer lib state a of
       Inl e \<Rightarrow> Inl e
     | Inr state' \<Rightarrow> runEvents lib state' as)"

subsection \<open>The collection router\<close>

text \<open>\<^verbatim>\<open>state.map((v, index) => ...)\<close> with a callback that may throw.\<close>

fun mapWithIndex :: "('a \<Rightarrow> nat \<Rightarrow> error + 'b) \<Rightarrow> nat \<Rightarrow> 'a list \<Rightarrow> error + 'b list" where
  "mapWithIndex f i [] = Inr []"
| "mapWithIndex f i (x # xs) =
    (case f x i of
       Inl e \<Rightarrow> Inl e
     | Inr y \<Rightarrow> (case mapWithIndex f (Suc i) xs of Inl e \<Rightarrow> Inl e | Inr ys \<Rightarrow> Inr (y # ys)))"

text \<open>\<^verbatim>\<open>state[i]\<close>, which is \<^verbatim>\<open>undefined\<close> (here \<open>None\<close>) outside the array.\<close>

definition element :: "'a list \<Rightarrow> int \<Rightarrow> 'a option" where
  "element xs i = (if 0 \<le> i \<and> i < int (length xs) then Some (xs ! nat i) else None)"

text \<open>
  The reducer's state parameter defaults to \<open>initialQueryVariableState\<close> when the
  argument is \<^verbatim>\<open>undefined\<close>. The spread \<^verbatim>\<open>{...v, ...r}\<close> of two states is \<open>r\<close>.
\<close>

definition orInitial :: "QueryVariableState option \<Rightarrow> QueryVariableState" where
  "orInitial s = (case s of None \<Rightarrow> initialQueryVariableState | Some state \<Rightarrow> state)"

definition updateChildState ::
  "'r collaborators \<Rightarrow> QueryVariableState list \<Rightarrow> string \<Rightarrow> string \<Rightarrow> action
    \<Rightarrow> error + QueryVariableState list" where
  "updateChildState lib state type name action =
    (if type \<noteq> ''query'' then Inr state
     else
       let instanceIndex = findIndex (\<lambda>child. name_var (variable child) = name) state;
           instanceState = element state instanceIndex
       in mapWithIndex
            (\<lambda>v index. if int index \<noteq> instanceIndex then Inr v
                        else queryVariableReducer lib (orInitial instanceState) action)
            0 state)"

fun queryVariablesReducer ::
  "'r collaborators \<Rightarrow> QueryVariableState list \<Rightarrow> action \<Rightarrow> error + QueryVariableState list" where
  "queryVariablesReducer lib state (AddVariable glob idx model) =
    (if type_var model \<noteq> ''query'' then Inr state
     else case queryVariableReducer lib initialQueryVariableState (AddVariable glob idx model) of
            Inl e \<Rightarrow> Inl e
          | Inr newVariable \<Rightarrow> Inr (state @ [newVariable]))"
| "queryVariablesReducer lib state (UpdateVariableOptions ident results) =
    updateChildState lib state (type_id ident) (name_id ident) (UpdateVariableOptions ident results)"
| "queryVariablesReducer lib state (UpdateVariableTags ident results) =
    updateChildState lib state (type_id ident) (name_id ident) (UpdateVariableTags ident results)"
| "queryVariablesReducer lib state (SetCurrentVariableValue ident cur) =
    updateChildState lib state (type_id ident) (name_id ident) (SetCurrentVariableValue ident cur)"
| "queryVariablesReducer lib state (SetInitLock ident) =
    updateChildState lib state (type_id ident) (name_id ident) (SetInitLock ident)"
| "queryVariablesReducer lib state (ResolveInitLock ident) =
    updateChildState lib state (type_id ident) (name_id ident) (ResolveInitLock ident)"
| "queryVariablesReducer lib state (RemoveInitLock ident) =
    updateChildState lib state (type_id ident) (name_id ident) (RemoveInitLock ident)"
| "queryVariablesReducer lib state (SelectVariableOption ident chosen forceSelect event) =
    updateChildState lib state (type_id ident) (name_id ident)
      (SelectVariableOption ident chosen forceSelect event)"
| "queryVariablesReducer lib state (ShowQueryVariableDropDown ident) =
    updateChildState lib state (type_id ident) (name_id ident) (ShowQueryVariableDropDown ident)"
| "queryVariablesReducer lib state (HideQueryVariableDropDown ident) =
    updateChildState lib state (type_id ident) (name_id ident) (HideQueryVariableDropDown ident)"
| "queryVariablesReducer lib state OtherAction = Inr state"

subsection \<open>The collection router on object references\<close>

text \<open>
  Whether the router returns an instance as the same object or as a copy is a question
  about references. Here the instances are objects on a heap, the list of all objects
  in the order of their allocation; a reference is an index into the heap, and a
  collection is an array of references, each of which points to an object of the heap.
  No branch of the reducer writes to an instance object, so the only effect on the heap
  is the allocation of a new object, which goes to its end: the object literal
  \<^verbatim>\<open>{ ...v, ...queryVariableReducer(instanceState, action) }\<close> in \<open>updateChildState\<close>, and the
  object that the reducer returns for \<^verbatim>\<open>addVariable\<close>. The callback of \<^verbatim>\<open>state.map\<close> returns
  the reference \<^verbatim>\<open>v\<close> it was given for every other index.
\<close>

type_synonym ref = nat

type_synonym heap = "QueryVariableState list"

text \<open>\<^verbatim>\<open>state.map((v, index) => ...)\<close> with a callback that may allocate and may throw.\<close>

fun mapRefs ::
  "(ref \<Rightarrow> nat \<Rightarrow> heap \<Rightarrow> error + heap \<times> ref) \<Rightarrow> nat \<Rightarrow> ref list \<Rightarrow> heap
    \<Rightarrow> error + heap \<times> ref list" where
  "mapRefs f i [] h = Inr (h, [])"
| "mapRefs f i (v # vs) h =
    (case f v i h of
       Inl e \<Rightarrow> Inl e
     | Inr (h1, y) \<Rightarrow>
         (case mapRefs f (Suc i) vs h1 of
            Inl e \<Rightarrow> Inl e
          | Inr (h2, ys) \<Rightarrow> Inr (h2, y # ys)))"

definition updateChildStateRefs ::
  "'r collaborators \<Rightarrow> heap \<Rightarrow> ref list \<Rightarrow> string \<Rightarrow> string \<Rightarrow> action
    \<Rightarrow> error + heap \<times> ref list" where
  "updateChildStateRefs lib heap state type name action =
    (if type \<noteq> ''query'' then Inr (heap, state)
     else
       let instanceIndex = findIndex (\<lambda>child. name_var (variable (heap ! child)) = name) state;
           instanceState = map_option (\<lambda>r. heap ! r) (element state instanceIndex)
       in mapRefs
            (\<lambda>v index h. if int index \<noteq> instanceIndex then Inr (h, v)
                          else case queryVariableReducer lib (orInitial instanceState) action of
                                 Inl e \<Rightarrow> Inl e
                               | Inr new \<Rightarrow> Inr (h @ [new], length h))
            0 state heap)"

fun queryVariablesReducerRefs ::
  "'r collaborators \<Rightarrow> heap \<Rightarrow> ref list \<Rightarrow> action \<Rightarrow> error + heap \<times> ref list" where
  "queryVariablesReducerRefs lib heap state (AddVariable glob idx model) =
    (if type_var model \<noteq> ''query'' then Inr (heap, state)
     else case queryVariableReducer lib initialQueryVariableState (AddVariable glob idx model) of
            Inl e \<Rightarrow> Inl e
          | Inr newVariable \<Rightarrow> Inr (heap @ [newVariable], state @ [length heap]))"
| "queryVariablesReducerRefs lib heap state (UpdateVariableOptions ident results) =
    updateChildStateRefs lib heap state (type_id ident) (name_id ident)
      (UpdateVariableOptions ident results)"
| "queryVariablesReducerRefs lib heap state (UpdateVariableTags ident results) =
    updateChildStateRefs lib heap state (type_id ident) (name_id ident)
      (UpdateVariableTags ident results)"
| "queryVariablesReducerRefs lib heap state (SetCurrentVariableValue ident cur) =
    updateChildStateRefs lib heap state (type_id ident) (name_id ident)
      (SetCurrentVariableValue ident cur)"
| "queryVariablesReducerRefs lib heap state (SetInitLock ident) =
    updateChildStateRefs lib heap state (type_id ident) (name_id ident) (SetInitLock ident)"
| "queryVariablesReducerRefs lib heap state (ResolveInitLock ident) =
    updateChildStateRefs lib heap state (type_id ident) (name_id ident) (ResolveInitLock ident)"
| "queryVariablesReducerRefs lib heap state (RemoveInitLock ident) =
    updateChildStateRefs lib heap state (type_id ident) (name_id ident) (RemoveInitLock ident)"
| "queryVariablesReducerRefs lib heap state (SelectVariableOption ident chosen forceSelect event) =
    updateChildStateRefs lib heap state (type_id ident) (name_id ident)
      (SelectVariableOption ident chosen forceSelect event)"
| "queryVariablesReducerRefs lib heap state (ShowQueryVariableDropDown ident) =
    updateChildStateRefs lib heap state (type_id ident) (name_id ident)
      (ShowQueryVariableDropDown ident)"
| "queryVariablesReducerRefs lib heap state (HideQueryVariableDropDown ident) =
    updateChildStateRefs lib heap state (type_id ident) (name_id ident)
      (HideQueryVariableDropDown ident)"
| "queryVariablesReducerRefs lib heap state OtherAction = Inr (heap, state)"

subsection \<open>Predicates and sample data for the properties\<close>

text \<open>
  Every tag of the current selection carries a \<^verbatim>\<open>values\<close> array (or the selection has
  no tags): the states on which \<open>updateLinkText\<close> never reaches a missing array.
\<close>

definition tagsHaveValues :: "QueryVariableState \<Rightarrow> bool" where
  "tagsHaveValues state =
    (case tags_cur (current (variable state)) of
       None \<Rightarrow> True
     | Some tags \<Rightarrow> list_all (\<lambda>tag. values_tag tag \<noteq> None) tags)"

text \<open>The events after which the reducer runs the four post-processing steps.\<close>

fun runsPipeline :: "action \<Rightarrow> bool" where
  "runsPipeline (SetCurrentVariableValue ident cur) = True"
| "runsPipeline (SelectVariableOption ident chosen forceSelect event) = True"
| "runsPipeline (ShowQueryVariableDropDown ident) = True"
| "runsPipeline (HideQueryVariableDropDown ident) = True"
| "runsPipeline a = False"

text \<open>
  Collaborators for the sample runs below, which all have an empty \<^verbatim>\<open>regex\<close>: the
  template service returns its argument, and no text compiles to a regular expression.
\<close>

definition noRegex :: "unit collaborators" where
  "noRegex =
    \<lparr> templateSrvReplace = (\<lambda>s. s),
      stringToJsRegex = (\<lambda>s. Inl RegexError),
      regexExec = (\<lambda>r v. (None, r)) \<rparr>"

definition exampleIdent :: VariableIdentifier where
  "exampleIdent = \<lparr> type_id = ''query'', name_id = ''host'' \<rparr>"

definition noKeys :: KeyEvent where
  "noKeys = \<lparr> ctrlKey = False, metaKey = False, shiftKey = False \<rparr>"

text \<open>The initial state with a given option list.\<close>

definition withOptions :: "VariableOption list \<Rightarrow> QueryVariableState" where
  "withOptions opts =
    initialQueryVariableState\<lparr>variable := initialQueryVariableModelState\<lparr>options_var := opts\<rparr>\<rparr>"

text \<open>The initial state of a multi-value variable with a given option list.\<close>

definition multiWithOptions :: "VariableOption list \<Rightarrow> QueryVariableState" where
  "multiWithOptions opts =
    initialQueryVariableState
      \<lparr>variable := initialQueryVariableModelState\<lparr>multi := True, options_var := opts\<rparr>\<rparr>"

text \<open>
  The type and the name an event is routed by: \<^verbatim>\<open>action.payload.variable\<close> or
  \<^verbatim>\<open>action.payload\<close>, as \<open>queryVariablesReducer\<close> reads them. \<^verbatim>\<open>addVariable\<close> is not
  routed, it appends an instance.
\<close>

fun routingKey :: "action \<Rightarrow> VariableIdentifier option" where
  "routingKey (UpdateVariableOptions ident results) = Some ident"
| "routingKey (UpdateVariableTags ident results) = Some ident"
| "routingKey (SetCurrentVariableValue ident cur) = Some ident"
| "routingKey (SetInitLock ident) = Some ident"
| "routingKey (ResolveInitLock ident) = Some ident"
| "routingKey (RemoveInitLock ident) = Some ident"
| "routingKey (SelectVariableOption ident chosen forceSelect event) = Some ident"
| "routingKey (ShowQueryVariableDropDown ident) = Some ident"
| "routingKey (HideQueryVariableDropDown ident) = Some ident"
| "routingKey a = None"

text \<open>The initial state of a variable with a given name.\<close>

definition named :: "string \<Rightarrow> QueryVariableState" where
  "named n = initialQueryVariableState\<lparr>variable := initialQueryVariableModelState\<lparr>name_var := n\<rparr>\<rparr>"

text \<open>
  A tag as \<^verbatim>\<open>updateVariableTags\<close> builds it, without \<^verbatim>\<open>values\<close>, and a state whose
  current selection carries that tag.
\<close>

definition tagWithoutValues :: VariableTag where
  "tagWithoutValues = \<lparr> text_tag = RStr ''prod'', selected_tag = True, values_tag = None \<rparr>"

definition taggedSelection :: CurrentSelection where
  "taggedSelection =
    \<lparr> text_cur = Scalar (JStr ''b''), value_cur = Scalar (JStr ''b''),
      tags_cur = Some [tagWithoutValues] \<rparr>"

definition taggedState :: "VariableOption list \<Rightarrow> QueryVariableState" where
  "taggedState opts =
    initialQueryVariableState
      \<lparr>variable := initialQueryVariableModelState
         \<lparr>options_var := opts, current := taggedSelection\<rparr>\<rparr>"

text \<open>
  The values of a selection: the elements of \<^verbatim>\<open>current.value\<close> when it is an array, the
  value itself otherwise.
\<close>

definition currentValues :: "CurrentSelection \<Rightarrow> jsval set" where
  "currentValues cur = (case value_cur cur of Arr vs \<Rightarrow> set vs | Scalar v \<Rightarrow> {v})"

section \<open>Properties\<close>

subsection \<open>The post-processing steps\<close>

lemma updateLinkText_frame:
  "updateLinkText s = Inr s' \<Longrightarrow>
     variable s' = variable s \<and> options_picker (picker s') = options_picker (picker s)"
  by (auto simp: updateLinkText_def Let_def split: option.splits if_splits sum.splits)

lemma pipeline_result:
  assumes "appyStateChanges s
          [updateLinkText, \<lambda>s. Inr (updateOptions s), \<lambda>s. Inr (updateSelectedValues s),
           \<lambda>s. Inr (updateSelectedTags s)] = Inr s'"
  shows "variable s' = variable s \<and>
         options_picker (picker s') =
           take (min (length (options_var (variable s))) 1000) (options_var (variable s))"
proof -
  from assms obtain s1 where s1: "updateLinkText s = Inr s1"
    and s': "s' = updateSelectedTags (updateSelectedValues (updateOptions s1))"
    by (auto split: sum.splits)
  from updateLinkText_frame[OF s1] show ?thesis
    by (simp add: s' updateSelectedTags_def updateSelectedValues_def updateOptions_def)
qed

lemma pipeline_returns:
  "(\<exists>s'. appyStateChanges s
          [updateLinkText, \<lambda>s. Inr (updateOptions s), \<lambda>s. Inr (updateSelectedValues s),
           \<lambda>s. Inr (updateSelectedTags s)] = Inr s') \<longleftrightarrow> (\<exists>s1. updateLinkText s = Inr s1)"
  by (auto split: sum.splits)

lemma inSomeTag_total:
  "list_all (\<lambda>tag. values_tag tag \<noteq> None) tags \<Longrightarrow> \<exists>b. inSomeTag tags v = Inr b"
  by (induction tags) (auto split: option.splits)

lemma selectedAndNotInTag_total:
  "list_all (\<lambda>tag. values_tag tag \<noteq> None) tags \<Longrightarrow>
     \<exists>kept. selectedAndNotInTag tags opts = Inr kept"
proof (induction opts)
  case Nil
  then show ?case by simp
next
  case (Cons opt rest)
  from inSomeTag_total[OF Cons.prems]
  obtain b where "inSomeTag tags (value_opt opt) = Inr b" by blast
  moreover from Cons obtain kept where "selectedAndNotInTag tags rest = Inr kept" by blast
  ultimately show ?case by simp
qed

lemma updateLinkText_total:
  assumes "tagsHaveValues s"
  shows "\<exists>s1. updateLinkText s = Inr s1"
proof (cases "tags_cur (current (variable s))")
  case None
  then show ?thesis by (simp add: updateLinkText_def)
next
  case (Some tags)
  with assms have "list_all (\<lambda>tag. values_tag tag \<noteq> None) tags"
    by (simp add: tagsHaveValues_def)
  from selectedAndNotInTag_total[OF this, of "options_var (variable s)"]
  obtain kept where "selectedAndNotInTag tags (options_var (variable s)) = Inr kept" by blast
  with Some show ?thesis by (simp add: updateLinkText_def Let_def)
qed

subsection \<open>The initialization lock\<close>

text \<open>
  Claim C1, as the spec states it, fails on an absent lock: on the initial state, whose
  \<^verbatim>\<open>initLock\<close> is absent, the \<^verbatim>\<open>resolveInitLock\<close> event makes the reducer throw a
  TypeError (\<^verbatim>\<open>state.variable.initLock.resolve()\<close> is called on \<^verbatim>\<open>undefined\<close>).
\<close>

theorem resolveInitLock_absent_throws:
  "initLock (variable initialQueryVariableState) = None \<and>
   queryVariableReducer noRegex initialQueryVariableState (ResolveInitLock exampleIdent)
     = Inl TypeError"
  by (simp add: initialQueryVariableState_def initialQueryVariableModelState_def)

text \<open>
  Claim C1, amended: for every instance state whose \<^verbatim>\<open>initLock\<close> is present, the
  \<^verbatim>\<open>resolveInitLock\<close> event raises no error and returns the state with the lock resolved
  and nothing else changed; when the lock is already resolved the state is returned
  unchanged.
\<close>

theorem resolveInitLock_present:
  assumes "initLock (variable s) = Some lock"
  shows "queryVariableReducer lib s (ResolveInitLock ident) =
           Inr (s\<lparr>variable := (variable s)\<lparr>initLock := Some Resolved\<rparr>\<rparr>)
         \<and> (lock = Resolved \<longrightarrow> queryVariableReducer lib s (ResolveInitLock ident) = Inr s)"
proof -
  have "resolve lock = Resolved" by (cases lock) simp_all
  with assms show ?thesis by auto
qed

theorem resolveInitLock_present_witness:
  "initLock (variable (initialQueryVariableState
      \<lparr>variable := initialQueryVariableModelState\<lparr>initLock := Some Resolved\<rparr>\<rparr>)) = Some Resolved
   \<and> queryVariableReducer noRegex
       (initialQueryVariableState\<lparr>variable := initialQueryVariableModelState\<lparr>initLock := Some Resolved\<rparr>\<rparr>)
       (ResolveInitLock exampleIdent)
     = Inr (initialQueryVariableState\<lparr>variable := initialQueryVariableModelState\<lparr>initLock := Some Resolved\<rparr>\<rparr>)"
  using resolveInitLock_present[of
     "initialQueryVariableState\<lparr>variable := initialQueryVariableModelState\<lparr>initLock := Some Resolved\<rparr>\<rparr>"
     Resolved noRegex exampleIdent]
  by simp

subsection \<open>Selecting an option\<close>

lemma selectNewOptions_length:
  "length (selectNewOptions m chosen f ev opts) = length opts"
  by (simp add: selectNewOptions_def Let_def)

lemma selectNewOptions_some_selected:
  assumes "opts \<noteq> []"
  shows "\<exists>opt \<in> set (selectNewOptions m chosen f ev opts). selected_opt opt"
proof (cases "filter selected_opt (map (toggleOption m chosen f ev) opts) = []")
  case True
  from assms obtain x xs where "opts = x # xs" by (cases opts) auto
  with True show ?thesis by (simp add: selectNewOptions_def Let_def)
next
  case False
  then obtain opt where "opt \<in> set (map (toggleOption m chosen f ev) opts)" "selected_opt opt"
    by (metis filter_False)
  with False show ?thesis by (auto simp: selectNewOptions_def Let_def)
qed

lemma select_result:
  assumes "queryVariableReducer lib s (SelectVariableOption ident chosen forceSelect event) = Inr s'"
  shows "variable s' = (variable s)\<lparr>options_var :=
            selectNewOptions (multi (variable s)) chosen forceSelect event (options_var (variable s))\<rparr>"
    and "options_picker (picker s') =
           take (min (length (options_var (variable s'))) 1000) (options_var (variable s'))"
proof -
  define n where "n = s\<lparr>variable := (variable s)\<lparr>options_var :=
            selectNewOptions (multi (variable s)) chosen forceSelect event (options_var (variable s))\<rparr>\<rparr>"
  from assms have "appyStateChanges n
      [updateLinkText, \<lambda>s. Inr (updateOptions s), \<lambda>s. Inr (updateSelectedValues s),
       \<lambda>s. Inr (updateSelectedTags s)] = Inr s'"
    unfolding n_def by (simp add: Let_def del: appyStateChanges.simps)
  from pipeline_result[OF this]
  have v: "variable s' = variable n"
    and p: "options_picker (picker s') =
              take (min (length (options_var (variable n))) 1000) (options_var (variable n))"
    by blast+
  show "variable s' = (variable s)\<lparr>options_var :=
            selectNewOptions (multi (variable s)) chosen forceSelect event (options_var (variable s))\<rparr>"
    unfolding v by (simp add: n_def)
  show "options_picker (picker s') =
           take (min (length (options_var (variable s'))) 1000) (options_var (variable s'))"
    unfolding p v ..
qed

lemma select_returns:
  assumes "tagsHaveValues s"
  shows "\<exists>s'. queryVariableReducer lib s (SelectVariableOption ident chosen forceSelect event) = Inr s'"
proof -
  define n where "n = s\<lparr>variable := (variable s)\<lparr>options_var :=
            selectNewOptions (multi (variable s)) chosen forceSelect event (options_var (variable s))\<rparr>\<rparr>"
  have "tagsHaveValues n" using assms by (simp add: n_def tagsHaveValues_def)
  from updateLinkText_total[OF this] pipeline_returns[of n]
  have "\<exists>s'. appyStateChanges n
      [updateLinkText, \<lambda>s. Inr (updateOptions s), \<lambda>s. Inr (updateSelectedValues s),
       \<lambda>s. Inr (updateSelectedTags s)] = Inr s'" by blast
  then show ?thesis
    unfolding n_def by (simp add: Let_def del: appyStateChanges.simps)
qed

text \<open>
  Claim C2, as the spec states it for \<^verbatim>\<open>setCurrentVariableValue\<close>, fails: with the one
  option \<open>a\<close> and a current value \<open>b\<close> the reducer returns a state whose only option is
  not selected. The branch sets \<^verbatim>\<open>selected\<close> to whether the option's value is among the
  current values, and nothing more.
\<close>

theorem setCurrent_no_selection:
  "options_var (variable (withOptions [newOption (JStr ''a'') (JStr ''a'')])) \<noteq> []
   \<and> \<not> isl (queryVariableReducer noRegex (withOptions [newOption (JStr ''a'') (JStr ''a'')])
       (SetCurrentVariableValue exampleIdent
          \<lparr> text_cur = Scalar (JStr ''b''), value_cur = Scalar (JStr ''b''), tags_cur = None \<rparr>))
   \<and> map selected_opt (options_var (variable (projr
       (queryVariableReducer noRegex (withOptions [newOption (JStr ''a'') (JStr ''a'')])
         (SetCurrentVariableValue exampleIdent
            \<lparr> text_cur = Scalar (JStr ''b''), value_cur = Scalar (JStr ''b''), tags_cur = None \<rparr>)))))
     = [False]"
  by (simp add: withOptions_def initialQueryVariableState_def initialQueryVariableModelState_def
      initialQueryVariablePickerState_def joinCurrentText_def selectCurrent_def newOption_def
      updateLinkText_def updateOptions_def updateSelectedValues_def updateSelectedTags_def)

lemma setCurrent_result:
  assumes "queryVariableReducer lib s (SetCurrentVariableValue ident cur) = Inr s'"
  shows "variable s' = (variable s)
           \<lparr> current := joinCurrentText cur,
             options_var := map (selectCurrent (joinCurrentText cur)) (options_var (variable s)) \<rparr>"
proof -
  define n where "n = s\<lparr>variable := (variable s)
           \<lparr> current := joinCurrentText cur,
             options_var := map (selectCurrent (joinCurrentText cur)) (options_var (variable s)) \<rparr>\<rparr>"
  from assms have "appyStateChanges n
      [updateLinkText, \<lambda>s. Inr (updateOptions s), \<lambda>s. Inr (updateSelectedValues s),
       \<lambda>s. Inr (updateSelectedTags s)] = Inr s'"
    unfolding n_def by (simp add: Let_def del: appyStateChanges.simps)
  from pipeline_result[OF this] have "variable s' = variable n" by blast
  then show ?thesis by (simp add: n_def)
qed

lemma joinCurrentText_keeps:
  "value_cur (joinCurrentText cur) = value_cur cur \<and> tags_cur (joinCurrentText cur) = tags_cur cur"
  by (simp add: joinCurrentText_def)

lemma setCurrent_returns:
  assumes "tagsHaveValues (s\<lparr>variable := (variable s)\<lparr>current := cur\<rparr>\<rparr>)"
  shows "\<exists>s'. queryVariableReducer lib s (SetCurrentVariableValue ident cur) = Inr s'"
proof -
  define n where "n = s\<lparr>variable := (variable s)
           \<lparr> current := joinCurrentText cur,
             options_var := map (selectCurrent (joinCurrentText cur)) (options_var (variable s)) \<rparr>\<rparr>"
  have "tagsHaveValues n"
    using assms by (simp add: n_def tagsHaveValues_def joinCurrentText_keeps)
  from updateLinkText_total[OF this] pipeline_returns[of n]
  have "\<exists>s'. appyStateChanges n
      [updateLinkText, \<lambda>s. Inr (updateOptions s), \<lambda>s. Inr (updateSelectedValues s),
       \<lambda>s. Inr (updateSelectedTags s)] = Inr s'" by blast
  then show ?thesis
    unfolding n_def by (simp add: Let_def del: appyStateChanges.simps)
qed

lemma selectCurrent_flag:
  "selectCurrent (joinCurrentText cur) opt =
     opt\<lparr>selected_opt := value_opt opt \<in> currentValues cur\<rparr>"
  by (cases "value_cur cur")
     (auto simp: selectCurrent_def currentValues_def joinCurrentText_keeps list_ex_iff)

text \<open>
  Claim C2, amended: for every instance state whose option list is not empty, the state
  that a \<^verbatim>\<open>selectVariableOption\<close> event returns has at least one selected option; in the
  state that a \<^verbatim>\<open>setCurrentVariableValue\<close> event returns every option is selected exactly
  when its value is among the current values (\<^verbatim>\<open>current.value\<close>, or its elements when it
  is an array), so that at least one option is selected exactly when the value of some
  option is among the current values. Either event returns a state whenever no tag of
  the selection it leaves in \<^verbatim>\<open>current\<close> lacks its values.
\<close>

theorem selection_after_transition:
  assumes "options_var (variable s) \<noteq> []"
  shows "(tagsHaveValues s \<longrightarrow>
            (\<exists>s'. queryVariableReducer lib s (SelectVariableOption ident chosen forceSelect event) = Inr s'))
       \<and> (\<forall>s'. queryVariableReducer lib s (SelectVariableOption ident chosen forceSelect event) = Inr s'
              \<longrightarrow> (\<exists>opt \<in> set (options_var (variable s')). selected_opt opt))
       \<and> (tagsHaveValues (s\<lparr>variable := (variable s)\<lparr>current := cur\<rparr>\<rparr>) \<longrightarrow>
            (\<exists>s'. queryVariableReducer lib s (SetCurrentVariableValue ident cur) = Inr s'))
       \<and> (\<forall>s'. queryVariableReducer lib s (SetCurrentVariableValue ident cur) = Inr s'
              \<longrightarrow> options_var (variable s') =
                    map (\<lambda>opt. opt\<lparr>selected_opt := value_opt opt \<in> currentValues cur\<rparr>)
                      (options_var (variable s))
                \<and> ((\<exists>opt \<in> set (options_var (variable s')). selected_opt opt)
                     \<longleftrightarrow> (\<exists>opt \<in> set (options_var (variable s)).
                            value_opt opt \<in> currentValues cur)))"
proof -
  have sel_returns: "tagsHaveValues s \<longrightarrow>
      (\<exists>s'. queryVariableReducer lib s (SelectVariableOption ident chosen forceSelect event) = Inr s')"
    using select_returns by blast
  have sel_some: "\<forall>s'. queryVariableReducer lib s
        (SelectVariableOption ident chosen forceSelect event) = Inr s'
      \<longrightarrow> (\<exists>opt \<in> set (options_var (variable s')). selected_opt opt)"
  proof (intro allI impI)
    fix s'
    assume "queryVariableReducer lib s (SelectVariableOption ident chosen forceSelect event) = Inr s'"
    from select_result(1)[OF this] have "options_var (variable s') =
        selectNewOptions (multi (variable s)) chosen forceSelect event (options_var (variable s))"
      by simp
    with selectNewOptions_some_selected[OF assms]
    show "\<exists>opt \<in> set (options_var (variable s')). selected_opt opt" by simp
  qed
  have cur_returns: "tagsHaveValues (s\<lparr>variable := (variable s)\<lparr>current := cur\<rparr>\<rparr>) \<longrightarrow>
      (\<exists>s'. queryVariableReducer lib s (SetCurrentVariableValue ident cur) = Inr s')"
    using setCurrent_returns by blast
  have cur_flags: "\<forall>s'. queryVariableReducer lib s (SetCurrentVariableValue ident cur) = Inr s'
      \<longrightarrow> options_var (variable s') =
            map (\<lambda>opt. opt\<lparr>selected_opt := value_opt opt \<in> currentValues cur\<rparr>)
              (options_var (variable s))
        \<and> ((\<exists>opt \<in> set (options_var (variable s')). selected_opt opt)
             \<longleftrightarrow> (\<exists>opt \<in> set (options_var (variable s)). value_opt opt \<in> currentValues cur))"
  proof (intro allI impI)
    fix s'
    assume "queryVariableReducer lib s (SetCurrentVariableValue ident cur) = Inr s'"
    from setCurrent_result[OF this]
    have new: "options_var (variable s') =
        map (\<lambda>opt. opt\<lparr>selected_opt := value_opt opt \<in> currentValues cur\<rparr>)
          (options_var (variable s))"
      by (simp add: selectCurrent_flag)
    then have "(\<exists>opt \<in> set (options_var (variable s')). selected_opt opt)
        \<longleftrightarrow> (\<exists>opt \<in> set (options_var (variable s)). value_opt opt \<in> currentValues cur)"
      by auto
    with new show "options_var (variable s') =
            map (\<lambda>opt. opt\<lparr>selected_opt := value_opt opt \<in> currentValues cur\<rparr>)
              (options_var (variable s))
        \<and> ((\<exists>opt \<in> set (options_var (variable s')). selected_opt opt)
             \<longleftrightarrow> (\<exists>opt \<in> set (options_var (variable s)). value_opt opt \<in> currentValues cur))"
      by (rule conjI)
  qed
  from sel_returns sel_some cur_returns cur_flags show ?thesis by (intro conjI)
qed

theorem selection_after_transition_witness:
  "options_var (variable (withOptions [newOption (JStr ''a'') (JStr ''a'')])) \<noteq> []
   \<and> (\<exists>s'. queryVariableReducer noRegex (withOptions [newOption (JStr ''a'') (JStr ''a'')])
              (SelectVariableOption exampleIdent (newOption (JStr ''b'') (JStr ''b'')) False noKeys)
            = Inr s'
          \<and> (\<exists>opt \<in> set (options_var (variable s')). selected_opt opt))
   \<and> (\<exists>s'. queryVariableReducer noRegex (withOptions [newOption (JStr ''a'') (JStr ''a'')])
              (SetCurrentVariableValue exampleIdent
                 \<lparr> text_cur = Arr [JStr ''a'', JStr ''c''], value_cur = Arr [JStr ''a'', JStr ''c''],
                   tags_cur = None \<rparr>)
            = Inr s'
          \<and> options_var (variable s') = [(newOption (JStr ''a'') (JStr ''a''))\<lparr>selected_opt := True\<rparr>])"
proof -
  define s where "s = withOptions [newOption (JStr ''a'') (JStr ''a'')]"
  define cur where "cur = \<lparr> text_cur = Arr [JStr ''a'', JStr ''c''],
      value_cur = Arr [JStr ''a'', JStr ''c''], tags_cur = None \<rparr>"
  have h: "options_var (variable s) \<noteq> []" by (simp add: s_def withOptions_def)
  have opts: "options_var (variable s) = [newOption (JStr ''a'') (JStr ''a'')]"
    by (simp add: s_def withOptions_def)
  have t: "tagsHaveValues s"
    by (simp add: s_def withOptions_def tagsHaveValues_def initialQueryVariableModelState_def)
  have tc: "tagsHaveValues (s\<lparr>variable := (variable s)\<lparr>current := cur\<rparr>\<rparr>)"
    by (simp add: tagsHaveValues_def cur_def)
  note inst = selection_after_transition[OF h, of noRegex exampleIdent
      "newOption (JStr ''b'') (JStr ''b'')" False noKeys cur]
  from inst t have one: "\<exists>s'. queryVariableReducer noRegex s
        (SelectVariableOption exampleIdent (newOption (JStr ''b'') (JStr ''b'')) False noKeys) = Inr s'
      \<and> (\<exists>opt \<in> set (options_var (variable s')). selected_opt opt)"
    by blast
  from inst tc obtain s' where
    step: "queryVariableReducer noRegex s (SetCurrentVariableValue exampleIdent cur) = Inr s'"
    by blast
  from inst[THEN conjunct2, THEN conjunct2, THEN conjunct2, rule_format, OF step]
  have "options_var (variable s') =
      map (\<lambda>opt. opt\<lparr>selected_opt := value_opt opt \<in> currentValues cur\<rparr>) (options_var (variable s))"
    by (rule conjunct1)
  then have "options_var (variable s') = [(newOption (JStr ''a'') (JStr ''a''))\<lparr>selected_opt := True\<rparr>]"
    by (simp add: opts currentValues_def cur_def newOption_def)
  with step have two: "\<exists>s'. queryVariableReducer noRegex s (SetCurrentVariableValue exampleIdent cur) = Inr s'
      \<and> options_var (variable s') = [(newOption (JStr ''a'') (JStr ''a''))\<lparr>selected_opt := True\<rparr>]"
    by blast
  from h one two show ?thesis unfolding s_def cur_def by (intro conjI)
qed

subsection \<open>The display cap\<close>

lemma pipeline_picker:
  assumes "appyStateChanges n
          [updateLinkText, \<lambda>s. Inr (updateOptions s), \<lambda>s. Inr (updateSelectedValues s),
           \<lambda>s. Inr (updateSelectedTags s)] = Inr s'"
  shows "options_picker (picker s') =
           take (min (length (options_var (variable s'))) 1000) (options_var (variable s'))"
proof -
  from pipeline_result[OF assms]
  have v: "variable s' = variable n"
    and p: "options_picker (picker s') =
              take (min (length (options_var (variable n))) 1000) (options_var (variable n))"
    by blast+
  show ?thesis unfolding p v ..
qed

lemma reducer_runs_pipeline:
  "runsPipeline a \<Longrightarrow>
    \<exists>n. queryVariableReducer lib s a = appyStateChanges n
          [updateLinkText, \<lambda>s. Inr (updateOptions s), \<lambda>s. Inr (updateSelectedValues s),
           \<lambda>s. Inr (updateSelectedTags s)]"
  by (cases a; simp add: Let_def del: appyStateChanges.simps; blast)

lemma reducer_pipeline_picker:
  assumes "runsPipeline a" and "queryVariableReducer lib s a = Inr s'"
  shows "options_picker (picker s') =
           take (min (length (options_var (variable s'))) 1000) (options_var (variable s'))"
proof -
  from reducer_runs_pipeline[OF assms(1), of lib s] assms(2)
  obtain n where "appyStateChanges n
          [updateLinkText, \<lambda>s. Inr (updateOptions s), \<lambda>s. Inr (updateSelectedValues s),
           \<lambda>s. Inr (updateSelectedTags s)] = Inr s'"
    by auto
  then show ?thesis by (rule pipeline_picker)
qed

lemma reducer_keeps_picker:
  assumes "\<not> runsPipeline a" and "queryVariableReducer lib s a = Inr s'"
  shows "picker s' = picker s"
  using assms by (cases a) (auto simp: Let_def split: sum.splits option.splits)

lemma reducer_picker_bound:
  assumes "length (options_picker (picker s)) \<le> 1000"
    and "queryVariableReducer lib s a = Inr s'"
  shows "length (options_picker (picker s')) \<le> 1000"
proof (cases "runsPipeline a")
  case True
  from reducer_pipeline_picker[OF True assms(2)] show ?thesis by simp
next
  case False
  from reducer_keeps_picker[OF False assms(2)] assms(1) show ?thesis by simp
qed

lemma runEvents_picker_bound:
  "length (options_picker (picker s)) \<le> 1000 \<Longrightarrow> runEvents lib s events = Inr s' \<Longrightarrow>
     length (options_picker (picker s')) \<le> 1000"
proof (induction events arbitrary: s)
  case Nil
  then show ?case by simp
next
  case (Cons a events)
  from Cons.prems(2) obtain s1 where step: "queryVariableReducer lib s a = Inr s1"
    and rest: "runEvents lib s1 events = Inr s'"
    by (auto split: sum.splits)
  from reducer_picker_bound[OF Cons.prems(1) step] rest show ?case
    by (rule Cons.IH)
qed

lemma show_runs_pipeline:
  "\<exists>n. queryVariableReducer lib s (ShowQueryVariableDropDown ident) =
          appyStateChanges n
            [updateLinkText, \<lambda>s. Inr (updateOptions s), \<lambda>s. Inr (updateSelectedValues s),
             \<lambda>s. Inr (updateSelectedTags s)]
        \<and> variable n = variable s"
  unfolding queryVariableReducer.simps Let_def
  by (rule exI, rule conjI, rule refl) simp

lemma show_returns:
  assumes "tagsHaveValues s"
  shows "\<exists>s'. queryVariableReducer lib s (ShowQueryVariableDropDown ident) = Inr s'"
proof -
  from show_runs_pipeline[of lib s ident]
  obtain n where n: "queryVariableReducer lib s (ShowQueryVariableDropDown ident) =
      appyStateChanges n
          [updateLinkText, \<lambda>s. Inr (updateOptions s), \<lambda>s. Inr (updateSelectedValues s),
           \<lambda>s. Inr (updateSelectedTags s)]"
    and v: "variable n = variable s"
    by blast
  have "tagsHaveValues n" using assms by (simp add: tagsHaveValues_def v)
  from updateLinkText_total[OF this] pipeline_returns[of n] n show ?thesis by simp
qed

text \<open>
  The state of an instance after \<^verbatim>\<open>updateVariableOptions\<close> with no results, from the
  initial state: the option list is the one None option, the picker is untouched.
\<close>

lemma runEvents_update_empty:
  "runEvents noRegex initialQueryVariableState [UpdateVariableOptions exampleIdent []] =
     Inr (initialQueryVariableState\<lparr>variable := initialQueryVariableModelState
       \<lparr>options_var := [\<lparr> text_opt = JStr ''None'', value_opt = JStr '''',
                          selected_opt = False, isNone = True \<rparr>]\<rparr>\<rparr>)"
  by (simp add: initialQueryVariableState_def initialQueryVariableModelState_def
      metricNamesToVariableValues_def uniqBy_def sortVariableValues_def
      NONE_VARIABLE_TEXT_def NONE_VARIABLE_VALUE_def)

text \<open>
  Claim C3, as the spec states it, fails after \<^verbatim>\<open>updateVariableOptions\<close>: from the initial
  state, the event with no results leaves \<^verbatim>\<open>variable.options\<close> with the None option and
  \<^verbatim>\<open>picker.options\<close> empty, which is not the first element of \<^verbatim>\<open>variable.options\<close>.
\<close>

theorem picker_options_stale_after_update:
  "\<not> isl (runEvents noRegex initialQueryVariableState [UpdateVariableOptions exampleIdent []])
   \<and> options_picker (picker (projr
        (runEvents noRegex initialQueryVariableState [UpdateVariableOptions exampleIdent []]))) = []
   \<and> options_var (variable (projr
        (runEvents noRegex initialQueryVariableState [UpdateVariableOptions exampleIdent []])))
      = [\<lparr> text_opt = JStr ''None'', value_opt = JStr '''', selected_opt = False, isNone = True \<rparr>]
   \<and> options_picker (picker (projr
        (runEvents noRegex initialQueryVariableState [UpdateVariableOptions exampleIdent []])))
      \<noteq> take (min (length (options_var (variable (projr
            (runEvents noRegex initialQueryVariableState [UpdateVariableOptions exampleIdent []])))))
              1000)
           (options_var (variable (projr
            (runEvents noRegex initialQueryVariableState [UpdateVariableOptions exampleIdent []]))))"
  unfolding runEvents_update_empty
  by (simp add: initialQueryVariableState_def initialQueryVariablePickerState_def)

text \<open>
  Claim C3, amended: in every state that the reducer's events reach from the initial
  state, \<^verbatim>\<open>picker.options\<close> has at most 1000 elements; after an event that runs the
  post-processing steps (\<^verbatim>\<open>setCurrentVariableValue\<close>, \<^verbatim>\<open>selectVariableOption\<close> and the two
  dropdown events) it is exactly the first \<open>min (length variable.options) 1000\<close> elements
  of \<^verbatim>\<open>variable.options\<close>, and every other event, \<^verbatim>\<open>updateVariableOptions\<close> among them,
  leaves \<^verbatim>\<open>picker.options\<close> as it was.
\<close>

theorem picker_options_cap:
  assumes "runEvents lib initialQueryVariableState events = Inr s"
  shows "length (options_picker (picker s)) \<le> 1000
     \<and> (\<forall>a s'. queryVariableReducer lib s a = Inr s' \<longrightarrow>
          (if runsPipeline a
           then options_picker (picker s') =
                  take (min (length (options_var (variable s'))) 1000) (options_var (variable s'))
           else options_picker (picker s') = options_picker (picker s)))"
proof (intro conjI allI impI)
  have "length (options_picker (picker initialQueryVariableState)) \<le> 1000"
    by (simp add: initialQueryVariableState_def initialQueryVariablePickerState_def)
  from runEvents_picker_bound[OF this assms]
  show "length (options_picker (picker s)) \<le> 1000" .
next
  fix a s'
  assume step: "queryVariableReducer lib s a = Inr s'"
  show "if runsPipeline a
        then options_picker (picker s') =
               take (min (length (options_var (variable s'))) 1000) (options_var (variable s'))
        else options_picker (picker s') = options_picker (picker s)"
  proof (cases "runsPipeline a")
    case True
    with reducer_pipeline_picker[OF True step] show ?thesis by simp
  next
    case False
    with reducer_keeps_picker[OF False step] show ?thesis by simp
  qed
qed

theorem picker_options_cap_witness:
  "\<exists>s. runEvents noRegex initialQueryVariableState [UpdateVariableOptions exampleIdent []] = Inr s
     \<and> length (options_picker (picker s)) \<le> 1000
     \<and> (\<exists>s'. queryVariableReducer noRegex s (ShowQueryVariableDropDown exampleIdent) = Inr s'
           \<and> options_picker (picker s') =
               take (min (length (options_var (variable s'))) 1000) (options_var (variable s')))"
proof -
  define s where "s = initialQueryVariableState\<lparr>variable := initialQueryVariableModelState
       \<lparr>options_var := [\<lparr> text_opt = JStr ''None'', value_opt = JStr '''',
                          selected_opt = False, isNone = True \<rparr>]\<rparr>\<rparr>"
  have run: "runEvents noRegex initialQueryVariableState [UpdateVariableOptions exampleIdent []] = Inr s"
    unfolding s_def by (rule runEvents_update_empty)
  have "tagsHaveValues s"
    by (simp add: s_def tagsHaveValues_def initialQueryVariableModelState_def)
  from show_returns[OF this]
  obtain s' where step: "queryVariableReducer noRegex s (ShowQueryVariableDropDown exampleIdent) = Inr s'"
    by blast
  note cap = picker_options_cap[OF run]
  from cap have bound: "length (options_picker (picker s)) \<le> 1000" by (rule conjunct1)
  from cap[THEN conjunct2, rule_format, OF step]
  have "options_picker (picker s') =
           take (min (length (options_var (variable s'))) 1000) (options_var (variable s'))"
    by simp
  with run step bound show ?thesis by blast
qed

subsection \<open>Single selection\<close>

lemma toggleOption_single:
  "selected_opt (toggleOption False chosen f ev opt) \<longleftrightarrow> value_opt opt = value_opt chosen"
  by (simp add: toggleOption_def)

lemma count_distinct_key:
  "distinct (map key xs) \<Longrightarrow>
     length (filter (\<lambda>x. key x = v) xs) = (if v \<in> key ` set xs then 1 else 0)"
  by (induction xs) auto

lemma toggle_single_count:
  assumes "distinct (map value_opt opts)"
  shows "length (filter selected_opt (map (toggleOption False chosen f ev) opts)) =
           (if value_opt chosen \<in> value_opt ` set opts then 1 else 0)"
proof -
  have "filter selected_opt (map (toggleOption False chosen f ev) opts) =
          map (toggleOption False chosen f ev) (filter (\<lambda>x. value_opt x = value_opt chosen) opts)"
    by (simp add: filter_map comp_def toggleOption_single)
  then show ?thesis using count_distinct_key[OF assms, of "value_opt chosen"] by simp
qed

lemma force_first_count:
  assumes "xs \<noteq> []" and "filter selected_opt xs = []"
  shows "length (filter selected_opt (xs[0 := (xs ! 0)\<lparr>selected_opt := True\<rparr>])) = 1"
proof -
  from assms(1) obtain x rest where xs: "xs = x # rest" by (cases xs) auto
  with assms(2) have "filter selected_opt rest = []" by (simp split: if_splits)
  with xs show ?thesis by simp
qed

lemma selectNewOptions_single:
  assumes "opts \<noteq> []" and "distinct (map value_opt opts)"
  shows "length (filter selected_opt (selectNewOptions False chosen f ev opts)) = 1"
proof (cases "filter selected_opt (map (toggleOption False chosen f ev) opts) = []")
  case True
  from assms(1) have "map (toggleOption False chosen f ev) opts \<noteq> []" by simp
  from force_first_count[OF this True] assms(1) True show ?thesis
    by (simp add: selectNewOptions_def Let_def)
next
  case False
  then have "length (filter selected_opt (map (toggleOption False chosen f ev) opts)) \<noteq> 0"
    by (simp only: length_0_conv) simp
  with toggle_single_count[OF assms(2), of chosen f ev]
  have "length (filter selected_opt (map (toggleOption False chosen f ev) opts)) = 1"
    by (simp split: if_splits)
  with False show ?thesis by (simp add: selectNewOptions_def Let_def)
qed

text \<open>
  Claim C5: for every instance state with \<^verbatim>\<open>multi = false\<close> and a non-empty option list
  without duplicate values, the state that a \<^verbatim>\<open>selectVariableOption\<close> event returns (for
  any chosen option, any \<^verbatim>\<open>forceSelect\<close> flag, any modifier keys) has exactly one selected
  option; the event returns a state whenever no tag of the current selection lacks its
  values.
\<close>

theorem single_select_exactly_one:
  assumes "\<not> multi (variable s)"
    and "options_var (variable s) \<noteq> []"
    and "distinct (map value_opt (options_var (variable s)))"
  shows "(tagsHaveValues s \<longrightarrow>
            (\<exists>s'. queryVariableReducer lib s (SelectVariableOption ident chosen forceSelect event) = Inr s'))
       \<and> (\<forall>s'. queryVariableReducer lib s (SelectVariableOption ident chosen forceSelect event) = Inr s'
              \<longrightarrow> length (filter selected_opt (options_var (variable s'))) = 1)"
proof (intro conjI impI allI)
  assume "tagsHaveValues s"
  then show "\<exists>s'. queryVariableReducer lib s (SelectVariableOption ident chosen forceSelect event) = Inr s'"
    by (rule select_returns)
next
  fix s'
  assume "queryVariableReducer lib s (SelectVariableOption ident chosen forceSelect event) = Inr s'"
  from select_result(1)[OF this] assms(1) have "options_var (variable s') =
      selectNewOptions False chosen forceSelect event (options_var (variable s))"
    by simp
  with selectNewOptions_single[OF assms(2,3)]
  show "length (filter selected_opt (options_var (variable s'))) = 1" by simp
qed

theorem single_select_exactly_one_witness:
  "\<not> multi (variable (withOptions [newOption (JStr ''a'') (JStr ''a''), newOption (JStr ''b'') (JStr ''b'')]))
   \<and> options_var (variable (withOptions [newOption (JStr ''a'') (JStr ''a''), newOption (JStr ''b'') (JStr ''b'')])) \<noteq> []
   \<and> distinct (map value_opt (options_var (variable
        (withOptions [newOption (JStr ''a'') (JStr ''a''), newOption (JStr ''b'') (JStr ''b'')]))))
   \<and> (\<exists>s'. queryVariableReducer noRegex
              (withOptions [newOption (JStr ''a'') (JStr ''a''), newOption (JStr ''b'') (JStr ''b'')])
              (SelectVariableOption exampleIdent (newOption (JStr ''b'') (JStr ''b'')) False noKeys)
            = Inr s'
          \<and> length (filter selected_opt (options_var (variable s'))) = 1)"
proof -
  define s where
    "s = withOptions [newOption (JStr ''a'') (JStr ''a''), newOption (JStr ''b'') (JStr ''b'')]"
  have m: "\<not> multi (variable s)"
    by (simp add: s_def withOptions_def initialQueryVariableModelState_def)
  have n: "options_var (variable s) \<noteq> []" by (simp add: s_def withOptions_def)
  have d: "distinct (map value_opt (options_var (variable s)))"
    by (simp add: s_def withOptions_def newOption_def)
  have t: "tagsHaveValues s"
    by (simp add: s_def withOptions_def tagsHaveValues_def initialQueryVariableModelState_def)
  from single_select_exactly_one[OF m n d, of noRegex exampleIdent
      "newOption (JStr ''b'') (JStr ''b'')" False noKeys] t
  have "\<exists>s'. queryVariableReducer noRegex s
              (SelectVariableOption exampleIdent (newOption (JStr ''b'') (JStr ''b'')) False noKeys)
            = Inr s'
          \<and> length (filter selected_opt (options_var (variable s'))) = 1"
    by blast
  with m n d show ?thesis unfolding s_def by blast
qed

subsection \<open>The All option\<close>

lemma toggleOption_all:
  assumes "value_opt opt \<noteq> value_opt chosen"
    and "text_opt opt = JStr ALL_VARIABLE_TEXT \<or> text_opt chosen = JStr ALL_VARIABLE_TEXT"
  shows "\<not> selected_opt (toggleOption m chosen f ev opt)"
  using assms by (auto simp: toggleOption_def)

lemma toggleOption_fields:
  "text_opt (toggleOption m chosen f ev opt) = text_opt opt \<and>
   value_opt (toggleOption m chosen f ev opt) = value_opt opt"
  by (simp add: toggleOption_def)

lemma selectNewOptions_nth:
  assumes "i < length opts"
  shows "selectNewOptions m chosen f ev opts ! i =
     (if i = 0 \<and> \<not> list_ex selected_opt (map (toggleOption m chosen f ev) opts)
      then (toggleOption m chosen f ev (opts ! i))\<lparr>selected_opt := True\<rparr>
      else toggleOption m chosen f ev (opts ! i))"
proof -
  have ex: "list_ex selected_opt (map (toggleOption m chosen f ev) opts) \<longleftrightarrow>
        filter selected_opt (map (toggleOption m chosen f ev) opts) \<noteq> []"
    by (simp only: list_ex_iff filter_empty_conv) blast
  from assms have ne: "opts \<noteq> []" by auto
  show ?thesis
  proof (cases "filter selected_opt (map (toggleOption m chosen f ev) opts) = []")
    case True
    with ne assms ex show ?thesis
      by (cases i) (simp_all add: selectNewOptions_def Let_def del: filter_map)
  next
    case False
    with ex assms show ?thesis by (simp add: selectNewOptions_def Let_def del: filter_map)
  qed
qed

text \<open>
  Claim C6, as the spec states it, fails: in a multi-value variable with the options All
  (not selected) and \<open>a\<close> (selected), choosing \<open>a\<close> again, which is not the All option,
  deselects \<open>a\<close>, leaves nothing selected, and the reducer then selects the first option,
  the All option.
\<close>

theorem deselecting_last_option_selects_all:
  "text_opt ((newOption (JStr ''a'') (JStr ''a''))\<lparr>selected_opt := True\<rparr>) \<noteq> JStr ALL_VARIABLE_TEXT
   \<and> \<not> isl (queryVariableReducer noRegex
        (multiWithOptions [newOption (JStr ''All'') (JStr ''$__all''),
                           (newOption (JStr ''a'') (JStr ''a''))\<lparr>selected_opt := True\<rparr>])
        (SelectVariableOption exampleIdent
           ((newOption (JStr ''a'') (JStr ''a''))\<lparr>selected_opt := True\<rparr>) False noKeys))
   \<and> options_var (variable (projr (queryVariableReducer noRegex
        (multiWithOptions [newOption (JStr ''All'') (JStr ''$__all''),
                           (newOption (JStr ''a'') (JStr ''a''))\<lparr>selected_opt := True\<rparr>])
        (SelectVariableOption exampleIdent
           ((newOption (JStr ''a'') (JStr ''a''))\<lparr>selected_opt := True\<rparr>) False noKeys))))
     = [(newOption (JStr ''All'') (JStr ''$__all''))\<lparr>selected_opt := True\<rparr>,
        newOption (JStr ''a'') (JStr ''a'')]"
  by (simp add: multiWithOptions_def initialQueryVariableState_def
      initialQueryVariableModelState_def initialQueryVariablePickerState_def
      selectNewOptions_def toggleOption_def newOption_def noKeys_def ALL_VARIABLE_TEXT_def
      updateLinkText_def updateOptions_def updateSelectedValues_def updateSelectedTags_def Let_def)

text \<open>
  Claim C6, amended: in the state that a \<^verbatim>\<open>selectVariableOption\<close> event returns, every
  option keeps its text and value, and every option whose value differs from the chosen
  option's and which is the All option (text \<open>All\<close>) or faces a chosen All option is not
  selected, except the first option of the list when the recomputation of the flags
  leaves no option selected: that first option is then selected. The event returns a
  state whenever no tag of the current selection lacks its values.
\<close>

theorem all_option_exclusive:
  "(tagsHaveValues s \<longrightarrow>
      (\<exists>s'. queryVariableReducer lib s (SelectVariableOption ident chosen forceSelect event) = Inr s'))
   \<and> (\<forall>s'. queryVariableReducer lib s (SelectVariableOption ident chosen forceSelect event) = Inr s'
        \<longrightarrow> length (options_var (variable s')) = length (options_var (variable s))
          \<and> (\<forall>i < length (options_var (variable s)).
               text_opt (options_var (variable s') ! i) = text_opt (options_var (variable s) ! i)
             \<and> value_opt (options_var (variable s') ! i) = value_opt (options_var (variable s) ! i)
             \<and> (value_opt (options_var (variable s) ! i) \<noteq> value_opt chosen
                  \<and> (text_opt (options_var (variable s) ! i) = JStr ALL_VARIABLE_TEXT
                       \<or> text_opt chosen = JStr ALL_VARIABLE_TEXT)
                \<longrightarrow> selected_opt (options_var (variable s') ! i) =
                      (i = 0 \<and> \<not> list_ex selected_opt
                         (map (toggleOption (multi (variable s)) chosen forceSelect event)
                            (options_var (variable s)))))))"
proof (intro conjI impI allI)
  assume "tagsHaveValues s"
  then show "\<exists>s'. queryVariableReducer lib s (SelectVariableOption ident chosen forceSelect event) = Inr s'"
    by (rule select_returns)
next
  fix s'
  assume "queryVariableReducer lib s (SelectVariableOption ident chosen forceSelect event) = Inr s'"
  from select_result(1)[OF this] have new: "options_var (variable s') =
      selectNewOptions (multi (variable s)) chosen forceSelect event (options_var (variable s))"
    by simp
  show "length (options_var (variable s')) = length (options_var (variable s))"
    by (simp add: new selectNewOptions_length)
  fix i
  assume i: "i < length (options_var (variable s))"
  note nth = selectNewOptions_nth[OF i, of "multi (variable s)" chosen forceSelect event]
  show "text_opt (options_var (variable s') ! i) = text_opt (options_var (variable s) ! i)"
    by (simp add: new nth toggleOption_fields)
  show "value_opt (options_var (variable s') ! i) = value_opt (options_var (variable s) ! i)"
    by (simp add: new nth toggleOption_fields)
  assume "value_opt (options_var (variable s) ! i) \<noteq> value_opt chosen
            \<and> (text_opt (options_var (variable s) ! i) = JStr ALL_VARIABLE_TEXT
                 \<or> text_opt chosen = JStr ALL_VARIABLE_TEXT)"
  then have "\<not> selected_opt
      (toggleOption (multi (variable s)) chosen forceSelect event (options_var (variable s) ! i))"
    by (intro toggleOption_all) simp_all
  then show "selected_opt (options_var (variable s') ! i) =
      (i = 0 \<and> \<not> list_ex selected_opt
         (map (toggleOption (multi (variable s)) chosen forceSelect event)
            (options_var (variable s))))"
    by (simp add: new nth)
qed

theorem all_option_exclusive_witness:
  "tagsHaveValues (multiWithOptions [newOption (JStr ''All'') (JStr ''$__all''),
                           (newOption (JStr ''a'') (JStr ''a''))\<lparr>selected_opt := True\<rparr>])
   \<and> (\<exists>s'. queryVariableReducer noRegex
          (multiWithOptions [newOption (JStr ''All'') (JStr ''$__all''),
                             (newOption (JStr ''a'') (JStr ''a''))\<lparr>selected_opt := True\<rparr>])
          (SelectVariableOption exampleIdent (newOption (JStr ''All'') (JStr ''$__all'')) False noKeys)
        = Inr s'
        \<and> length (options_var (variable s')) = 2
        \<and> \<not> selected_opt (options_var (variable s') ! 1))"
proof -
  define s where "s = multiWithOptions [newOption (JStr ''All'') (JStr ''$__all''),
                           (newOption (JStr ''a'') (JStr ''a''))\<lparr>selected_opt := True\<rparr>]"
  have t: "tagsHaveValues s"
    by (simp add: s_def multiWithOptions_def tagsHaveValues_def initialQueryVariableModelState_def)
  have opts: "options_var (variable s) = [newOption (JStr ''All'') (JStr ''$__all''),
                           (newOption (JStr ''a'') (JStr ''a''))\<lparr>selected_opt := True\<rparr>]"
    by (simp add: s_def multiWithOptions_def)
  note inst = all_option_exclusive[of s noRegex exampleIdent
      "newOption (JStr ''All'') (JStr ''$__all'')" False noKeys]
  from inst t obtain s' where step: "queryVariableReducer noRegex s
      (SelectVariableOption exampleIdent (newOption (JStr ''All'') (JStr ''$__all'')) False noKeys) = Inr s'"
    by blast
  from inst[THEN conjunct2, rule_format, OF step]
  have len: "length (options_var (variable s')) = length (options_var (variable s))"
    and each: "\<forall>i < length (options_var (variable s)).
               text_opt (options_var (variable s') ! i) = text_opt (options_var (variable s) ! i)
             \<and> value_opt (options_var (variable s') ! i) = value_opt (options_var (variable s) ! i)
             \<and> (value_opt (options_var (variable s) ! i)
                    \<noteq> value_opt (newOption (JStr ''All'') (JStr ''$__all''))
                  \<and> (text_opt (options_var (variable s) ! i) = JStr ALL_VARIABLE_TEXT
                       \<or> text_opt (newOption (JStr ''All'') (JStr ''$__all'')) = JStr ALL_VARIABLE_TEXT)
                \<longrightarrow> selected_opt (options_var (variable s') ! i) =
                      (i = 0 \<and> \<not> list_ex selected_opt
                         (map (toggleOption (multi (variable s))
                                (newOption (JStr ''All'') (JStr ''$__all'')) False noKeys)
                            (options_var (variable s)))))"
    by blast+
  from each[rule_format, of 1] have "\<not> selected_opt (options_var (variable s') ! 1)"
    by (simp add: opts newOption_def ALL_VARIABLE_TEXT_def)
  with t step len show ?thesis unfolding s_def[symmetric] by (simp add: opts)
qed

subsection \<open>The option sorter\<close>

lemma sortVariableValues_perm:
  assumes "sortVariableValues opts sortOrder = Inr out"
  shows "set out = set opts" and "distinct out \<longleftrightarrow> distinct opts"
  using assms
  by (auto simp: sortVariableValues_def sortBy_def Let_def split: if_splits)

lemma sortVariableValues_total:
  assumes "(sortOrder + 1) div 2 = 2 \<longrightarrow> list_all (\<lambda>opt. textString opt \<noteq> None) opts"
  shows "\<exists>out. sortVariableValues opts sortOrder = Inr out"
  using assms by (auto simp: sortVariableValues_def Let_def)

text \<open>
  Claim C7: for every option list and every sort type \<open>k\<close> among 1, 2 and 3, the sorter
  with the reversed mode \<open>2 * k\<close> returns exactly the reverse of what it returns with the
  mode \<open>2 * k - 1\<close> (and throws when that mode throws, which only the numeric sort does,
  on a text that is no string).
\<close>

theorem reversed_mode_reverses:
  assumes "k \<in> {1, 2, 3}"
  shows "sortVariableValues opts (2 * k) = map_sum id rev (sortVariableValues opts (2 * k - 1))
       \<and> ((k = 2 \<longrightarrow> list_all (\<lambda>opt. textString opt \<noteq> None) opts)
            \<longrightarrow> (\<exists>out. sortVariableValues opts (2 * k - 1) = Inr out))"
proof -
  from assms consider "k = 1" | "k = 2" | "k = 3" by auto
  then show ?thesis
  proof cases
    case 1
    then show ?thesis by (simp add: sortVariableValues_def)
  next
    case 2
    then show ?thesis by (simp add: sortVariableValues_def)
  next
    case 3
    then show ?thesis by (simp add: sortVariableValues_def)
  qed
qed

theorem reversed_mode_reverses_witness:
  "(1::nat) \<in> {1, 2, 3}
   \<and> sortVariableValues [newOption (JStr ''b'') (JStr ''1''), newOption (JStr ''a'') (JStr ''2'')] 1
       = Inr [newOption (JStr ''a'') (JStr ''2''), newOption (JStr ''b'') (JStr ''1'')]
   \<and> sortVariableValues [newOption (JStr ''b'') (JStr ''1''), newOption (JStr ''a'') (JStr ''2'')] 2
       = Inr [newOption (JStr ''b'') (JStr ''1''), newOption (JStr ''a'') (JStr ''2'')]"
proof -
  have one: "sortVariableValues
      [newOption (JStr ''b'') (JStr ''1''), newOption (JStr ''a'') (JStr ''2'')] 1
       = Inr [newOption (JStr ''a'') (JStr ''2''), newOption (JStr ''b'') (JStr ''1'')]"
    by (simp add: sortVariableValues_def sortBy_def newOption_def)
  from reversed_mode_reverses[of 1
      "[newOption (JStr ''b'') (JStr ''1''), newOption (JStr ''a'') (JStr ''2'')]"] one
  show ?thesis by simp
qed

subsection \<open>The result normalizer\<close>

lemma collectOptions_no_regex:
  "collectOptions lib None items = map (\<lambda>item. newOption (itemText item) (itemValue item)) items"
  by (induction items) (simp_all add: Let_def)

lemma baseUniq_keys:
  "key ` set (baseUniq key seen xs) = key ` set xs - set seen"
  by (induction xs arbitrary: seen) auto

lemma baseUniq_subset:
  "set (baseUniq key seen xs) \<subseteq> set xs"
  by (induction xs arbitrary: seen) auto

lemma baseUniq_distinct:
  "distinct (map key (baseUniq key seen xs))"
proof (induction xs arbitrary: seen)
  case Nil
  then show ?case by simp
next
  case (Cons x xs)
  have "key x \<notin> key ` set (baseUniq key (key x # seen) xs)"
    by (simp add: baseUniq_keys)
  with Cons show ?case by simp
qed

lemma baseUniq_first:
  "x \<in> set (baseUniq key seen xs) \<Longrightarrow> List.find (\<lambda>y. key y = key x) xs = Some x"
proof (induction xs arbitrary: seen)
  case Nil
  then show ?case by simp
next
  case (Cons y ys)
  show ?case
  proof (cases "key y \<in> set seen")
    case True
    with Cons.prems have x: "x \<in> set (baseUniq key seen ys)" by simp
    then have "key x \<in> key ` set (baseUniq key seen ys)" by blast
    then have "key x \<notin> set seen" by (simp add: baseUniq_keys)
    with True have "key y \<noteq> key x" by auto
    with Cons.IH[OF x] show ?thesis by simp
  next
    case False
    with Cons.prems consider "x = y" | "x \<in> set (baseUniq key (key y # seen) ys)" by auto
    then show ?thesis
    proof cases
      case 1
      then show ?thesis by simp
    next
      case 2
      then have "key x \<in> key ` set (baseUniq key (key y # seen) ys)" by blast
      then have "key y \<noteq> key x" by (auto simp: baseUniq_keys)
      with Cons.IH[OF 2] show ?thesis by simp
    qed
  qed
qed

lemma normalizer_no_regex:
  "metricNamesToVariableValues lib '''' sortOrder metricNames =
     sortVariableValues
       (uniqBy value_opt (map (\<lambda>item. newOption (itemText item) (itemValue item)) metricNames))
       sortOrder"
  by (simp add: metricNamesToVariableValues_def collectOptions_no_regex)

text \<open>
  Claim C4: for every raw result list and an empty \<^verbatim>\<open>regex\<close>, the list the normalizer
  returns holds each value of the raw results (\<^verbatim>\<open>value\<close>, or \<^verbatim>\<open>text\<close> where the value is
  missing, numbers as strings) in exactly one option, and every option of the list is
  the first option with its value among the options built from the raw results in
  input order. The normalizer returns a list for every sort order other than the numeric
  ones, and for these whenever every raw result has a text or a value.
\<close>

theorem normalizer_dedup:
  "(((sortOrder + 1) div 2 = 2 \<longrightarrow>
        (\<forall>item \<in> set metricNames. itemText item \<noteq> JUndefined \<and> itemText item \<noteq> JNull))
      \<longrightarrow> (\<exists>out. metricNamesToVariableValues lib '''' sortOrder metricNames = Inr out))
   \<and> (\<forall>out. metricNamesToVariableValues lib '''' sortOrder metricNames = Inr out \<longrightarrow>
         (\<forall>v \<in> itemValue ` set metricNames.
             length (filter (\<lambda>opt. value_opt opt = v) out) = 1)
       \<and> (\<forall>opt \<in> set out.
             List.find (\<lambda>built. value_opt built = value_opt opt)
               (map (\<lambda>item. newOption (itemText item) (itemValue item)) metricNames) = Some opt))"
proof (intro conjI impI allI ballI)
  define built where
    "built = map (\<lambda>item. newOption (itemText item) (itemValue item)) metricNames"
  define uniq where "uniq = uniqBy value_opt built"
  note run = normalizer_no_regex[of lib sortOrder metricNames, folded built_def uniq_def]
  have sub: "set uniq \<subseteq> set built" by (simp add: uniq_def uniqBy_def baseUniq_subset)
  {
    assume texts: "(sortOrder + 1) div 2 = 2 \<longrightarrow>
        (\<forall>item \<in> set metricNames. itemText item \<noteq> JUndefined \<and> itemText item \<noteq> JNull)"
    have "(sortOrder + 1) div 2 = 2 \<longrightarrow> list_all (\<lambda>opt. textString opt \<noteq> None) uniq"
    proof
      assume "(sortOrder + 1) div 2 = 2"
      with texts have "\<forall>opt \<in> set built. textString opt \<noteq> None"
        by (auto simp: built_def newOption_def split: jsval.splits)
      with sub show "list_all (\<lambda>opt. textString opt \<noteq> None) uniq"
        by (auto simp: list_all_iff)
    qed
    from sortVariableValues_total[OF this] run
    show "\<exists>out. metricNamesToVariableValues lib '''' sortOrder metricNames = Inr out" by simp
  }
  fix out
  assume "metricNamesToVariableValues lib '''' sortOrder metricNames = Inr out"
  with run have sorted: "sortVariableValues uniq sortOrder = Inr out" by simp
  note perm = sortVariableValues_perm[OF sorted]
  have keys: "value_opt ` set uniq = value_opt ` set built"
    using baseUniq_keys[of value_opt "[]" built] by (simp add: uniq_def uniqBy_def)
  have "distinct (map value_opt uniq)" by (simp add: uniq_def uniqBy_def baseUniq_distinct)
  with perm have dist: "distinct (map value_opt out)" by (simp add: distinct_map)
  {
    fix v
    assume "v \<in> itemValue ` set metricNames"
    then have "v \<in> value_opt ` set built" by (auto simp: built_def newOption_def image_iff)
    with keys perm(1) have "v \<in> value_opt ` set out" by simp
    with count_distinct_key[OF dist, of v]
    show "length (filter (\<lambda>opt. value_opt opt = v) out) = 1" by simp
  }
  fix opt
  assume "opt \<in> set out"
  with perm(1) have "opt \<in> set (baseUniq value_opt [] built)" by (simp add: uniq_def uniqBy_def)
  from baseUniq_first[OF this]
  show "List.find (\<lambda>built. value_opt built = value_opt opt)
          (map (\<lambda>item. newOption (itemText item) (itemValue item)) metricNames) = Some opt"
    by (simp add: built_def)
qed

theorem normalizer_dedup_witness:
  "metricNamesToVariableValues noRegex '''' 0
     [\<lparr> text_item = RUndefined, value_item = RStr ''a'' \<rparr>,
      \<lparr> text_item = RStr ''A again'', value_item = RStr ''a'' \<rparr>,
      \<lparr> text_item = RUndefined, value_item = RNum ''7'' \<rparr>]
   = Inr [newOption (JStr ''a'') (JStr ''a''), newOption (JStr ''7'') (JStr ''7'')]
   \<and> length (filter (\<lambda>opt. value_opt opt = JStr ''a'')
        [newOption (JStr ''a'') (JStr ''a''), newOption (JStr ''7'') (JStr ''7'')]) = 1"
proof -
  have run: "metricNamesToVariableValues noRegex '''' 0
     [\<lparr> text_item = RUndefined, value_item = RStr ''a'' \<rparr>,
      \<lparr> text_item = RStr ''A again'', value_item = RStr ''a'' \<rparr>,
      \<lparr> text_item = RUndefined, value_item = RNum ''7'' \<rparr>]
   = Inr [newOption (JStr ''a'') (JStr ''a''), newOption (JStr ''7'') (JStr ''7'')]"
    by (simp add: metricNamesToVariableValues_def uniqBy_def sortVariableValues_def
        itemText_def itemValue_def isNullish_def newOption_def)
  have "JStr ''a'' \<in> itemValue ` set
     [\<lparr> text_item = RUndefined, value_item = RStr ''a'' \<rparr>,
      \<lparr> text_item = RStr ''A again'', value_item = RStr ''a'' \<rparr>,
      \<lparr> text_item = RUndefined, value_item = RNum ''7'' \<rparr>]"
    by (simp add: itemValue_def isNullish_def)
  with normalizer_dedup[of 0 _ noRegex, THEN conjunct2, rule_format, OF run] run
  show ?thesis by blast
qed

subsection \<open>The collection router\<close>

lemma findIndex_range:
  "findIndex p xs = -1 \<or> (0 \<le> findIndex p xs \<and> findIndex p xs < int (length xs))"
  by (induction xs) (auto simp: Let_def)

lemma findIndex_none:
  "findIndex p xs = -1 \<longleftrightarrow> (\<forall>x \<in> set xs. \<not> p x)"
proof (induction xs)
  case Nil
  then show ?case by simp
next
  case (Cons x xs)
  from findIndex_range[of p xs] have "findIndex p xs + 1 \<noteq> -1" by auto
  with Cons show ?case by (auto simp: Let_def)
qed

lemma findIndex_holds:
  "0 \<le> findIndex p xs \<Longrightarrow> p (xs ! nat (findIndex p xs))"
proof (induction xs)
  case Nil
  then show ?case by simp
next
  case (Cons x xs)
  show ?case
  proof (cases "p x")
    case True
    then show ?thesis by simp
  next
    case False
    with Cons.prems have ne: "findIndex p xs \<noteq> -1" by (auto simp: Let_def split: if_splits)
    with findIndex_range[of p xs] have pos: "0 \<le> findIndex p xs" by auto
    from False ne have "findIndex p (x # xs) = findIndex p xs + 1" by (simp add: Let_def)
    moreover from pos have "nat (findIndex p xs + 1) = Suc (nat (findIndex p xs))" by simp
    ultimately show ?thesis using Cons.IH[OF pos] by simp
  qed
qed

lemma mapWithIndex_frame:
  assumes "mapWithIndex f i xs = Inr ys"
  shows "length ys = length xs \<and> (\<forall>j < length xs. f (xs ! j) (i + j) = Inr (ys ! j))"
  using assms
proof (induction xs arbitrary: i ys)
  case Nil
  then show ?case by simp
next
  case (Cons x xs)
  from Cons.prems obtain y ys' where y: "f x i = Inr y"
    and rest: "mapWithIndex f (Suc i) xs = Inr ys'" and ys: "ys = y # ys'"
    by (auto split: sum.splits)
  from Cons.IH[OF rest] have len: "length ys' = length xs"
    and each: "\<forall>j < length xs. f (xs ! j) (Suc i + j) = Inr (ys' ! j)" by blast+
  show ?case
  proof (intro conjI allI impI)
    show "length ys = length (x # xs)" by (simp add: ys len)
    fix j
    assume "j < length (x # xs)"
    then show "f ((x # xs) ! j) (i + j) = Inr (ys ! j)"
      using y each by (cases j) (simp_all add: ys)
  qed
qed

lemma mapWithIndex_identity:
  "(\<forall>j < length xs. f (xs ! j) (i + j) = Inr (xs ! j)) \<Longrightarrow> mapWithIndex f i xs = Inr xs"
proof (induction xs arbitrary: i)
  case Nil
  then show ?case by simp
next
  case (Cons x xs)
  from Cons.prems have "f x i = Inr x" by force
  moreover have "\<forall>j < length xs. f (xs ! j) (Suc i + j) = Inr (xs ! j)"
  proof (intro allI impI)
    fix j
    assume "j < length xs"
    then have "Suc j < length (x # xs)" by simp
    with Cons.prems have "f ((x # xs) ! Suc j) (i + Suc j) = Inr ((x # xs) ! Suc j)" by blast
    then show "f (xs ! j) (Suc i + j) = Inr (xs ! j)" by simp
  qed
  ultimately show ?case using Cons.IH[of "Suc i"] by simp
qed

lemma updateChildState_frame:
  assumes "updateChildState lib state ''query'' name action = Inr state'"
  shows "length state' = length state"
    and "\<forall>i < length state. name_var (variable (state ! i)) \<noteq> name \<longrightarrow> state' ! i = state ! i"
proof -
  define k where "k = findIndex (\<lambda>child. name_var (variable child) = name) state"
  define f where "f = (\<lambda>v (index::nat). if int index \<noteq> k then Inr v
      else queryVariableReducer lib (orInitial (element state k)) action)"
  from assms have run: "mapWithIndex f 0 state = Inr state'"
    unfolding updateChildState_def Let_def k_def f_def by simp
  from mapWithIndex_frame[OF run] have len: "length state' = length state"
    and each: "\<forall>j < length state. f (state ! j) (0 + j) = Inr (state' ! j)" by blast+
  show "length state' = length state" by (rule len)
  show "\<forall>i < length state. name_var (variable (state ! i)) \<noteq> name \<longrightarrow> state' ! i = state ! i"
  proof (intro allI impI)
    fix i
    assume i: "i < length state" and other: "name_var (variable (state ! i)) \<noteq> name"
    have "int i \<noteq> k"
    proof
      assume "int i = k"
      then have "0 \<le> k" and "nat k = i" by auto
      with findIndex_holds[of "\<lambda>child. name_var (variable child) = name" state]
      have "name_var (variable (state ! i)) = name" by (simp add: k_def)
      with other show False by contradiction
    qed
    with each i show "state' ! i = state ! i" by (auto simp: f_def)
  qed
qed

text \<open>The type and the name that \<open>queryVariablesReducer\<close> reads from a routed event.\<close>

lemma routed_event:
  assumes "routingKey action = Some key"
  shows "queryVariablesReducer lib state action =
           updateChildState lib state (type_id key) (name_id key) action"
  using assms by (cases action) auto

lemma routing_frame_values:
  "(type \<noteq> ''query'' \<longrightarrow> updateChildState lib state type name action = Inr state)
   \<and> (\<forall>state'. updateChildState lib state ''query'' name action = Inr state' \<longrightarrow>
         length state' = length state
       \<and> (\<forall>i < length state. name_var (variable (state ! i)) \<noteq> name \<longrightarrow> state' ! i = state ! i))
   \<and> (\<forall>key. routingKey action = Some key \<longrightarrow>
         (type_id key \<noteq> ''query'' \<longrightarrow> queryVariablesReducer lib state action = Inr state)
       \<and> (type_id key = ''query'' \<longrightarrow>
            (\<forall>state'. queryVariablesReducer lib state action = Inr state' \<longrightarrow>
               length state' = length state
             \<and> (\<forall>i < length state. name_var (variable (state ! i)) \<noteq> name_id key
                    \<longrightarrow> state' ! i = state ! i))))"
proof (intro conjI allI impI)
  assume "type \<noteq> ''query''"
  then show "updateChildState lib state type name action = Inr state"
    by (simp add: updateChildState_def)
next
  fix state'
  assume "updateChildState lib state ''query'' name action = Inr state'"
  from updateChildState_frame[OF this]
  show "length state' = length state"
    and "\<And>i. i < length state \<Longrightarrow> name_var (variable (state ! i)) \<noteq> name \<Longrightarrow>
           state' ! i = state ! i"
    by blast+
next
  fix key
  assume key: "routingKey action = Some key"
  note routed = routed_event[OF key, of lib state]
  {
    assume "type_id key \<noteq> ''query''"
    then show "queryVariablesReducer lib state action = Inr state"
      by (simp add: routed updateChildState_def)
  }
  fix state'
  assume "type_id key = ''query''" and "queryVariablesReducer lib state action = Inr state'"
  with routed have "updateChildState lib state ''query'' (name_id key) action = Inr state'"
    by simp
  from updateChildState_frame[OF this]
  show "length state' = length state"
    and "\<And>i. i < length state \<Longrightarrow> name_var (variable (state ! i)) \<noteq> name_id key \<Longrightarrow>
           state' ! i = state ! i"
    by blast+
qed

lemma findIndex_map:
  "findIndex p (map g xs) = findIndex (\<lambda>x. p (g x)) xs"
  by (induction xs) (simp_all add: Let_def)

lemma element_map:
  "element (map g xs) i = map_option g (element xs i)"
  by (auto simp: element_def)

lemma mapRefs_refines:
  fixes R :: "error + QueryVariableState" and k :: int
  assumes f: "\<And>v index h. f v index h =
        (if int index \<noteq> k then Inr (h, v)
         else case R of Inl e \<Rightarrow> Inl e | Inr new \<Rightarrow> Inr (h @ [new], length h))"
    and g: "\<And>v index. g v index = (if int index \<noteq> k then Inr v else R)"
    and wf: "\<forall>r \<in> set coll. r < length h"
  shows "case mapRefs f i coll h of
           Inl e \<Rightarrow> mapWithIndex g i (map ((!) h) coll) = Inl e
         | Inr (h', coll') \<Rightarrow>
             (\<exists>extra. h' = h @ extra) \<and> length coll' = length coll
           \<and> (\<forall>r \<in> set coll'. r < length h')
           \<and> mapWithIndex g i (map ((!) h) coll) = Inr (map ((!) h') coll')
           \<and> (\<forall>j < length coll. int (i + j) \<noteq> k \<longrightarrow> coll' ! j = coll ! j)"
  using wf
proof (induction coll arbitrary: i h)
  case Nil
  then show ?case by simp
next
  case (Cons v vs)
  from Cons.prems have v: "v < length h" and vs: "\<forall>r \<in> set vs. r < length h" by simp_all
  show ?case
  proof (cases "int i \<noteq> k")
    case True
    then have fv: "f v i h = Inr (h, v)" and gv: "g (h ! v) i = Inr (h ! v)"
      by (simp_all add: f g)
    note IH = Cons.IH[OF vs, of "Suc i"]
    show ?thesis
    proof (cases "mapRefs f (Suc i) vs h")
      case (Inl e)
      with IH fv gv show ?thesis by simp
    next
      case (Inr res)
      obtain h2 ys where res: "res = (h2, ys)" by (cases res)
      from IH Inr res obtain extra where ext: "h2 = h @ extra"
        and len: "length ys = length vs"
        and valid: "\<forall>r \<in> set ys. r < length h2"
        and mapped: "mapWithIndex g (Suc i) (map ((!) h) vs) = Inr (map ((!) h2) ys)"
        and kept: "\<forall>j < length vs. int (Suc i + j) \<noteq> k \<longrightarrow> ys ! j = vs ! j"
        by auto
      from ext v have same: "h2 ! v = h ! v" and vvalid: "v < length h2"
        by (simp_all add: nth_append)
      have keep: "\<forall>j < length (v # vs). int (i + j) \<noteq> k \<longrightarrow> (v # ys) ! j = (v # vs) ! j"
      proof (intro allI impI)
        fix j
        assume "j < length (v # vs)" and "int (i + j) \<noteq> k"
        with kept show "(v # ys) ! j = (v # vs) ! j" by (cases j) simp_all
      qed
      from ext len valid vvalid mapped same gv keep fv Inr res show ?thesis by simp
    qed
  next
    case False
    show ?thesis
    proof (cases R)
      case (Inl e)
      with False have "f v i h = Inl e" and "g (h ! v) i = Inl e" by (simp_all add: f g)
      then show ?thesis by simp
    next
      case (Inr new)
      with False have fv: "f v i h = Inr (h @ [new], length h)" and gv: "g (h ! v) i = Inr new"
        by (simp_all add: f g)
      from vs have vs1: "\<forall>r \<in> set vs. r < length (h @ [new])" by auto
      from vs have derefs: "map ((!) (h @ [new])) vs = map ((!) h) vs"
        by (simp add: nth_append)
      note IH = Cons.IH[OF vs1, of "Suc i", unfolded derefs]
      show ?thesis
      proof (cases "mapRefs f (Suc i) vs (h @ [new])")
        case (Inl e)
        with IH fv gv show ?thesis by simp
      next
        case (Inr res)
        obtain h2 ys where res: "res = (h2, ys)" by (cases res)
        from IH Inr res obtain extra where ext: "h2 = (h @ [new]) @ extra"
          and len: "length ys = length vs"
          and valid: "\<forall>r \<in> set ys. r < length h2"
          and mapped: "mapWithIndex g (Suc i) (map ((!) h) vs) = Inr (map ((!) h2) ys)"
          and kept: "\<forall>j < length vs. int (Suc i + j) \<noteq> k \<longrightarrow> ys ! j = vs ! j"
          by auto
        from ext have new: "h2 ! length h = new" and nvalid: "length h < length h2"
          and ext': "h2 = h @ ([new] @ extra)"
          by (simp_all add: nth_append)
        have keep: "\<forall>j < length (v # vs). int (i + j) \<noteq> k \<longrightarrow>
            (length h # ys) ! j = (v # vs) ! j"
        proof (intro allI impI)
          fix j
          assume "j < length (v # vs)" and "int (i + j) \<noteq> k"
          with kept False show "(length h # ys) ! j = (v # vs) ! j" by (cases j) simp_all
        qed
        from ext' have "\<exists>extra. h2 = h @ extra" by blast
        with len valid nvalid mapped new gv keep fv Inr res show ?thesis by simp
      qed
    qed
  qed
qed

lemma updateChildStateRefs_refines:
  assumes wf: "\<forall>r \<in> set refs. r < length heap"
  shows "case updateChildStateRefs lib heap refs ''query'' name action of
           Inl e \<Rightarrow> updateChildState lib (map ((!) heap) refs) ''query'' name action = Inl e
         | Inr (heap', refs') \<Rightarrow>
             (\<exists>extra. heap' = heap @ extra) \<and> length refs' = length refs
           \<and> (\<forall>r \<in> set refs'. r < length heap')
           \<and> updateChildState lib (map ((!) heap) refs) ''query'' name action
                = Inr (map ((!) heap') refs')
           \<and> (\<forall>j < length refs. name_var (variable (heap ! (refs ! j))) \<noteq> name
                  \<longrightarrow> refs' ! j = refs ! j)"
proof -
  define k where "k = findIndex (\<lambda>child. name_var (variable (heap ! child)) = name) refs"
  define R where "R = queryVariableReducer lib
      (orInitial (map_option (\<lambda>r. heap ! r) (element refs k))) action"
  define f where "f = (\<lambda>(v::ref) (index::nat) (h::heap). if int index \<noteq> k then Inr (h, v)
      else case R of Inl e \<Rightarrow> Inl e | Inr new \<Rightarrow> Inr (h @ [new], length h))"
  define g where "g = (\<lambda>(v::QueryVariableState) (index::nat). if int index \<noteq> k then Inr v else R)"
  have refs_run: "updateChildStateRefs lib heap refs ''query'' name action = mapRefs f 0 refs heap"
    unfolding updateChildStateRefs_def Let_def k_def R_def f_def by simp
  have k': "findIndex (\<lambda>child. name_var (variable child) = name) (map ((!) heap) refs) = k"
    by (simp add: findIndex_map k_def)
  have vals_run: "updateChildState lib (map ((!) heap) refs) ''query'' name action
      = mapWithIndex g 0 (map ((!) heap) refs)"
    unfolding updateChildState_def Let_def k' element_map g_def R_def by simp
  have other: "\<forall>j < length refs. name_var (variable (heap ! (refs ! j))) \<noteq> name \<longrightarrow> int (0 + j) \<noteq> k"
  proof (intro allI impI notI)
    fix j
    assume j: "j < length refs" and differs: "name_var (variable (heap ! (refs ! j))) \<noteq> name"
      and "int (0 + j) = k"
    then have "0 \<le> k" and "nat k = j" by auto
    with findIndex_holds[of "\<lambda>child. name_var (variable child) = name" "map ((!) heap) refs"] j
    have "name_var (variable (heap ! (refs ! j))) = name" by (simp add: k')
    with differs show False by contradiction
  qed
  have f: "\<And>v index h. f v index h =
        (if int index \<noteq> k then Inr (h, v)
         else case R of Inl e \<Rightarrow> Inl e | Inr new \<Rightarrow> Inr (h @ [new], length h))"
    by (simp add: f_def)
  have g: "\<And>v index. g v index = (if int index \<noteq> k then Inr v else R)"
    by (simp add: g_def)
  from mapRefs_refines[of f k R g refs heap 0, OF f g wf] other
  show ?thesis unfolding refs_run vals_run
    by (auto split: sum.splits prod.splits)
qed

lemma routed_event_refs:
  assumes "routingKey action = Some key"
  shows "queryVariablesReducerRefs lib heap refs action =
           updateChildStateRefs lib heap refs (type_id key) (name_id key) action"
  using assms by (cases action) auto

lemma updateChildStateRefs_frame:
  assumes wf: "\<forall>r \<in> set refs. r < length heap"
    and run: "updateChildStateRefs lib heap refs ''query'' name action = Inr (heap', refs')"
  shows "length refs' = length refs
       \<and> (\<forall>i < length refs. name_var (variable (heap ! (refs ! i))) \<noteq> name
             \<longrightarrow> refs' ! i = refs ! i \<and> heap' ! (refs' ! i) = heap ! (refs ! i))
       \<and> (\<forall>r < length heap. heap' ! r = heap ! r)
       \<and> updateChildState lib (map ((!) heap) refs) ''query'' name action
            = Inr (map ((!) heap') refs')"
proof -
  from updateChildStateRefs_refines[OF wf, of lib name action] run
  obtain extra where ext: "heap' = heap @ extra" and len: "length refs' = length refs"
    and vals: "updateChildState lib (map ((!) heap) refs) ''query'' name action
                = Inr (map ((!) heap') refs')"
    and kept: "\<forall>j < length refs. name_var (variable (heap ! (refs ! j))) \<noteq> name
                  \<longrightarrow> refs' ! j = refs ! j"
    by auto
  from ext have old: "\<forall>r < length heap. heap' ! r = heap ! r" by (simp add: nth_append)
  have "\<forall>i < length refs. name_var (variable (heap ! (refs ! i))) \<noteq> name
             \<longrightarrow> refs' ! i = refs ! i \<and> heap' ! (refs' ! i) = heap ! (refs ! i)"
  proof (intro allI impI)
    fix i
    assume i: "i < length refs" and "name_var (variable (heap ! (refs ! i))) \<noteq> name"
    with kept have same: "refs' ! i = refs ! i" by blast
    from i wf have "refs ! i < length heap" by simp
    with old same show "refs' ! i = refs ! i \<and> heap' ! (refs' ! i) = heap ! (refs ! i)" by simp
  qed
  with len old vals show ?thesis by blast
qed


text \<open>
  Claim C8: for every collection and every routed event, a declared type other than
  \<open>query\<close> returns the collection unchanged; otherwise, when the router returns a
  collection, it has the length of the old one and holds, at its own position, the very
  reference of every instance whose name differs from the event's name: the instance is
  the same object, not a copy, and the object has not been written to. The instances
  that the returned references point to are those of the router on values. This holds
  for \<open>updateChildState\<close> and for \<open>queryVariablesReducer\<close> on every event that carries a
  routing key, on references (the first three parts) and on values (the last three).
\<close>

theorem routing_frame:
  "(type \<noteq> ''query'' \<longrightarrow> updateChildStateRefs lib heap refs type name action = Inr (heap, refs))
   \<and> ((\<forall>r \<in> set refs. r < length heap) \<longrightarrow>
        (\<forall>heap' refs'. updateChildStateRefs lib heap refs ''query'' name action = Inr (heap', refs')
           \<longrightarrow> length refs' = length refs
             \<and> (\<forall>i < length refs. name_var (variable (heap ! (refs ! i))) \<noteq> name
                   \<longrightarrow> refs' ! i = refs ! i \<and> heap' ! (refs' ! i) = heap ! (refs ! i))
             \<and> (\<forall>r < length heap. heap' ! r = heap ! r)
             \<and> updateChildState lib (map ((!) heap) refs) ''query'' name action
                  = Inr (map ((!) heap') refs')))
   \<and> (\<forall>key. routingKey action = Some key \<longrightarrow>
         (type_id key \<noteq> ''query'' \<longrightarrow>
            queryVariablesReducerRefs lib heap refs action = Inr (heap, refs))
       \<and> (type_id key = ''query'' \<and> (\<forall>r \<in> set refs. r < length heap) \<longrightarrow>
            (\<forall>heap' refs'. queryVariablesReducerRefs lib heap refs action = Inr (heap', refs')
               \<longrightarrow> length refs' = length refs
                 \<and> (\<forall>i < length refs. name_var (variable (heap ! (refs ! i))) \<noteq> name_id key
                       \<longrightarrow> refs' ! i = refs ! i \<and> heap' ! (refs' ! i) = heap ! (refs ! i))
                 \<and> (\<forall>r < length heap. heap' ! r = heap ! r)
                 \<and> queryVariablesReducer lib (map ((!) heap) refs) action
                      = Inr (map ((!) heap') refs'))))
   \<and> (type \<noteq> ''query'' \<longrightarrow> updateChildState lib state type name action = Inr state)
   \<and> (\<forall>state'. updateChildState lib state ''query'' name action = Inr state' \<longrightarrow>
         length state' = length state
       \<and> (\<forall>i < length state. name_var (variable (state ! i)) \<noteq> name \<longrightarrow> state' ! i = state ! i))
   \<and> (\<forall>key. routingKey action = Some key \<longrightarrow>
         (type_id key \<noteq> ''query'' \<longrightarrow> queryVariablesReducer lib state action = Inr state)
       \<and> (type_id key = ''query'' \<longrightarrow>
            (\<forall>state'. queryVariablesReducer lib state action = Inr state' \<longrightarrow>
               length state' = length state
             \<and> (\<forall>i < length state. name_var (variable (state ! i)) \<noteq> name_id key
                    \<longrightarrow> state' ! i = state ! i))))"
proof -
  have refs_other: "type \<noteq> ''query'' \<longrightarrow>
      updateChildStateRefs lib heap refs type name action = Inr (heap, refs)"
    by (simp add: updateChildStateRefs_def)
  have refs_frame: "(\<forall>r \<in> set refs. r < length heap) \<longrightarrow>
        (\<forall>heap' refs'. updateChildStateRefs lib heap refs ''query'' name action = Inr (heap', refs')
           \<longrightarrow> length refs' = length refs
             \<and> (\<forall>i < length refs. name_var (variable (heap ! (refs ! i))) \<noteq> name
                   \<longrightarrow> refs' ! i = refs ! i \<and> heap' ! (refs' ! i) = heap ! (refs ! i))
             \<and> (\<forall>r < length heap. heap' ! r = heap ! r)
             \<and> updateChildState lib (map ((!) heap) refs) ''query'' name action
                  = Inr (map ((!) heap') refs'))"
  proof (intro allI impI)
    fix heap' refs'
    assume wf: "\<forall>r \<in> set refs. r < length heap"
      and run: "updateChildStateRefs lib heap refs ''query'' name action = Inr (heap', refs')"
    from updateChildStateRefs_frame[OF wf run]
    show "length refs' = length refs
             \<and> (\<forall>i < length refs. name_var (variable (heap ! (refs ! i))) \<noteq> name
                   \<longrightarrow> refs' ! i = refs ! i \<and> heap' ! (refs' ! i) = heap ! (refs ! i))
             \<and> (\<forall>r < length heap. heap' ! r = heap ! r)
             \<and> updateChildState lib (map ((!) heap) refs) ''query'' name action
                  = Inr (map ((!) heap') refs')" .
  qed
  have refs_routed: "\<forall>key. routingKey action = Some key \<longrightarrow>
         (type_id key \<noteq> ''query'' \<longrightarrow>
            queryVariablesReducerRefs lib heap refs action = Inr (heap, refs))
       \<and> (type_id key = ''query'' \<and> (\<forall>r \<in> set refs. r < length heap) \<longrightarrow>
            (\<forall>heap' refs'. queryVariablesReducerRefs lib heap refs action = Inr (heap', refs')
               \<longrightarrow> length refs' = length refs
                 \<and> (\<forall>i < length refs. name_var (variable (heap ! (refs ! i))) \<noteq> name_id key
                       \<longrightarrow> refs' ! i = refs ! i \<and> heap' ! (refs' ! i) = heap ! (refs ! i))
                 \<and> (\<forall>r < length heap. heap' ! r = heap ! r)
                 \<and> queryVariablesReducer lib (map ((!) heap) refs) action
                      = Inr (map ((!) heap') refs')))"
  proof (intro allI impI)
    fix key
    assume key: "routingKey action = Some key"
    note on_refs = routed_event_refs[OF key, of lib heap refs]
    note on_vals = routed_event[OF key, of lib "map ((!) heap) refs"]
    have one: "type_id key \<noteq> ''query'' \<longrightarrow>
        queryVariablesReducerRefs lib heap refs action = Inr (heap, refs)"
      by (simp add: on_refs updateChildStateRefs_def)
    have two: "type_id key = ''query'' \<and> (\<forall>r \<in> set refs. r < length heap) \<longrightarrow>
            (\<forall>heap' refs'. queryVariablesReducerRefs lib heap refs action = Inr (heap', refs')
               \<longrightarrow> length refs' = length refs
                 \<and> (\<forall>i < length refs. name_var (variable (heap ! (refs ! i))) \<noteq> name_id key
                       \<longrightarrow> refs' ! i = refs ! i \<and> heap' ! (refs' ! i) = heap ! (refs ! i))
                 \<and> (\<forall>r < length heap. heap' ! r = heap ! r)
                 \<and> queryVariablesReducer lib (map ((!) heap) refs) action
                      = Inr (map ((!) heap') refs'))"
    proof (intro allI impI)
      fix heap' refs'
      assume q: "type_id key = ''query'' \<and> (\<forall>r \<in> set refs. r < length heap)"
        and run: "queryVariablesReducerRefs lib heap refs action = Inr (heap', refs')"
      from q have wf: "\<forall>r \<in> set refs. r < length heap" by blast
      from run q have "updateChildStateRefs lib heap refs ''query'' (name_id key) action
          = Inr (heap', refs')"
        by (simp add: on_refs)
      from updateChildStateRefs_frame[OF wf this] q
      show "length refs' = length refs
                 \<and> (\<forall>i < length refs. name_var (variable (heap ! (refs ! i))) \<noteq> name_id key
                       \<longrightarrow> refs' ! i = refs ! i \<and> heap' ! (refs' ! i) = heap ! (refs ! i))
                 \<and> (\<forall>r < length heap. heap' ! r = heap ! r)
                 \<and> queryVariablesReducer lib (map ((!) heap) refs) action
                      = Inr (map ((!) heap') refs')"
        by (simp add: on_vals)
    qed
    from one two show "(type_id key \<noteq> ''query'' \<longrightarrow>
            queryVariablesReducerRefs lib heap refs action = Inr (heap, refs))
       \<and> (type_id key = ''query'' \<and> (\<forall>r \<in> set refs. r < length heap) \<longrightarrow>
            (\<forall>heap' refs'. queryVariablesReducerRefs lib heap refs action = Inr (heap', refs')
               \<longrightarrow> length refs' = length refs
                 \<and> (\<forall>i < length refs. name_var (variable (heap ! (refs ! i))) \<noteq> name_id key
                       \<longrightarrow> refs' ! i = refs ! i \<and> heap' ! (refs' ! i) = heap ! (refs ! i))
                 \<and> (\<forall>r < length heap. heap' ! r = heap ! r)
                 \<and> queryVariablesReducer lib (map ((!) heap) refs) action
                      = Inr (map ((!) heap') refs')))"
      by (rule conjI)
  qed
  note vals = routing_frame_values[of type lib state name action]
  from refs_other refs_frame refs_routed vals[THEN conjunct1] vals[THEN conjunct2, THEN conjunct1]
    vals[THEN conjunct2, THEN conjunct2]
  show ?thesis by (intro conjI)
qed


theorem routing_frame_witness:
  "list_all (\<lambda>r. r < length [named ''host'', named ''env'']) [0, 1]
   \<and> routingKey (SetInitLock exampleIdent) = Some exampleIdent
   \<and> type_id exampleIdent = ''query''
   \<and> queryVariablesReducerRefs noRegex [named ''host'', named ''env''] [0, 1]
         (SetInitLock exampleIdent)
       = Inr ([named ''host'', named ''env'',
               (named ''host'')\<lparr>variable := (variable (named ''host''))\<lparr>initLock := Some Pending\<rparr>\<rparr>],
              [2, 1])
   \<and> name_var (variable ([named ''host'', named ''env''] ! ([0, 1] ! 1))) \<noteq> name_id exampleIdent
   \<and> [2, 1] ! 1 = [0, 1] ! (1::nat)
   \<and> queryVariablesReducer noRegex [named ''host'', named ''env''] (SetInitLock exampleIdent)
       = Inr [(named ''host'')\<lparr>variable := (variable (named ''host''))\<lparr>initLock := Some Pending\<rparr>\<rparr>,
              named ''env'']"
proof -
  define heap where "heap = [named ''host'', named ''env'']"
  define heap' where "heap' = [named ''host'', named ''env'',
      (named ''host'')\<lparr>variable := (variable (named ''host''))\<lparr>initLock := Some Pending\<rparr>\<rparr>]"
  have wf: "\<forall>r \<in> set [0, 1]. r < length heap" by (simp add: heap_def)
  have key: "routingKey (SetInitLock exampleIdent) = Some exampleIdent" by simp
  have query: "type_id exampleIdent = ''query''" by (simp add: exampleIdent_def)
  have run: "queryVariablesReducerRefs noRegex heap [0, 1] (SetInitLock exampleIdent)
       = Inr (heap', [2, 1])"
  proof -
    have names: "name_var (variable (named ''host'')) = ''host''"
      "name_var (variable (named ''env'')) = ''env''"
      by (simp_all add: named_def)
    show ?thesis
      unfolding heap_def heap'_def
      by (simp add: updateChildStateRefs_def exampleIdent_def element_def orInitial_def names)
  qed
  have other: "name_var (variable (heap ! ([0, 1] ! 1))) \<noteq> name_id exampleIdent"
    by (simp add: heap_def named_def exampleIdent_def initialQueryVariableModelState_def)
  note frame = routing_frame[of "''query''" noRegex heap "[0, 1]" "''host''"
      "SetInitLock exampleIdent" "[]", THEN conjunct2, THEN conjunct2, THEN conjunct1,
      rule_format, OF key, THEN conjunct2, rule_format, OF conjI [OF query wf] run]
  note same = frame[THEN conjunct2, THEN conjunct1]
  note vals = frame[THEN conjunct2, THEN conjunct2, THEN conjunct2]
  from same[rule_format, of 1] other have "[2, 1] ! 1 = [0, 1] ! (1::nat)" by simp
  moreover from vals have "queryVariablesReducer noRegex [named ''host'', named ''env'']
      (SetInitLock exampleIdent)
       = Inr [(named ''host'')\<lparr>variable := (variable (named ''host''))\<lparr>initLock := Some Pending\<rparr>\<rparr>,
              named ''env'']"
    by (simp add: heap_def heap'_def)
  ultimately show ?thesis using wf key query run other
    by (simp add: heap_def heap'_def list_all_iff)
qed

text \<open>
  Claim C9: for every collection and every event of type \<open>query\<close> whose name matches no
  instance of the collection, \<open>updateChildState\<close> does not throw: \<^verbatim>\<open>findIndex\<close> returns -1,
  no index of \<^verbatim>\<open>state.map\<close> equals it, the reducer is never called, and the collection that
  is returned has the same length and the same instances, each at its own position. The
  same holds for \<open>queryVariablesReducer\<close> on a routed event with such a name.
\<close>

theorem routing_missing_name:
  assumes "\<forall>child \<in> set state. name_var (variable child) \<noteq> name"
  shows "updateChildState lib state ''query'' name action = Inr state
       \<and> (\<forall>key. routingKey action = Some key \<and> type_id key = ''query'' \<and> name_id key = name
            \<longrightarrow> queryVariablesReducer lib state action = Inr state)"
proof -
  from assms have none: "findIndex (\<lambda>child. name_var (variable child) = name) state = -1"
    by (simp add: findIndex_none)
  have "mapWithIndex
          (\<lambda>v index. if int index \<noteq> -1 then Inr v
                      else queryVariableReducer lib (orInitial (element state (-1))) action)
          0 state = Inr state"
    by (rule mapWithIndex_identity) simp
  then have direct: "updateChildState lib state ''query'' name action = Inr state"
    unfolding updateChildState_def Let_def none by simp
  show ?thesis
  proof (intro conjI allI impI)
    show "updateChildState lib state ''query'' name action = Inr state" by (rule direct)
    fix key
    assume "routingKey action = Some key \<and> type_id key = ''query'' \<and> name_id key = name"
    with routed_event[of action key lib state] direct
    show "queryVariablesReducer lib state action = Inr state" by simp
  qed
qed

theorem routing_missing_name_witness:
  "list_all (\<lambda>child. name_var (variable child) \<noteq> ''host'') [named ''env'', named ''region'']
   \<and> updateChildState noRegex [named ''env'', named ''region''] ''query'' ''host''
        (ResolveInitLock exampleIdent) = Inr [named ''env'', named ''region'']
   \<and> queryVariablesReducer noRegex [named ''env'', named ''region''] (ResolveInitLock exampleIdent)
        = Inr [named ''env'', named ''region'']"
proof -
  have h: "\<forall>child \<in> set [named ''env'', named ''region'']. name_var (variable child) \<noteq> ''host''"
    by (simp add: named_def)
  from routing_missing_name[OF h, of noRegex "ResolveInitLock exampleIdent"] h
  show ?thesis by (simp add: exampleIdent_def list_all_iff)
qed

subsection \<open>The link text\<close>

lemma findIndex_found:
  "findIndex p xs \<noteq> -1 \<longleftrightarrow> (\<exists>x \<in> set xs. p x)"
  by (simp add: findIndex_none)

lemma inSomeTag_throws_only:
  "inSomeTag tags v = Inl e \<Longrightarrow>
     e = TypeError \<and>
     (\<exists>pre tag post. tags = pre @ tag # post \<and> values_tag tag = None \<and>
        (\<forall>t \<in> set pre. \<exists>vs. values_tag t = Some vs \<and> v \<notin> set vs))"
proof (induction tags)
  case Nil
  then show ?case by simp
next
  case (Cons t rest)
  show ?case
  proof (cases "values_tag t")
    case None
    with Cons.prems have "e = TypeError" by simp
    moreover from None have "t # rest = [] @ t # rest \<and> values_tag t = None \<and>
        (\<forall>u \<in> set []. \<exists>vs. values_tag u = Some vs \<and> v \<notin> set vs)" by simp
    ultimately show ?thesis by blast
  next
    case (Some vs)
    with Cons.prems have notin: "v \<notin> set vs" and rest: "inSomeTag rest v = Inl e"
      by (auto simp: findIndex_found split: if_splits)
    from Cons.IH[OF rest] obtain pre tag post where e: "e = TypeError"
      and d: "rest = pre @ tag # post" and n: "values_tag tag = None"
      and p: "\<forall>u \<in> set pre. \<exists>ws. values_tag u = Some ws \<and> v \<notin> set ws"
      by blast
    from d n p Some notin have "t # rest = (t # pre) @ tag # post \<and> values_tag tag = None \<and>
        (\<forall>u \<in> set (t # pre). \<exists>ws. values_tag u = Some ws \<and> v \<notin> set ws)" by simp
    with e show ?thesis by blast
  qed
qed

lemma inSomeTag_throws:
  assumes "values_tag tag = None"
    and "\<forall>t \<in> set pre. \<exists>vs. values_tag t = Some vs \<and> v \<notin> set vs"
  shows "inSomeTag (pre @ tag # post) v = Inl TypeError"
  using assms(2)
proof (induction pre)
  case Nil
  with assms(1) show ?case by simp
next
  case (Cons t pre)
  then obtain vs where "values_tag t = Some vs" and "v \<notin> set vs" by auto
  moreover from this have "findIndex (\<lambda>x. x = v) vs = -1" by (auto simp: findIndex_none)
  moreover from Cons have "inSomeTag (pre @ tag # post) v = Inl TypeError" by simp
  ultimately show ?case by simp
qed

lemma selectedAndNotInTag_throws_only:
  "selectedAndNotInTag tags opts = Inl e \<Longrightarrow>
     \<exists>opt \<in> set opts. selected_opt opt \<and> inSomeTag tags (value_opt opt) = Inl e"
  by (induction opts) (auto split: if_splits sum.splits)

lemma selectedAndNotInTag_throws:
  "opt \<in> set opts \<Longrightarrow> selected_opt opt \<Longrightarrow> inSomeTag tags (value_opt opt) = Inl TypeError \<Longrightarrow>
     selectedAndNotInTag tags opts = Inl TypeError"
proof (induction opts)
  case Nil
  then show ?case by simp
next
  case (Cons x rest)
  show ?case
  proof (cases "x = opt")
    case True
    with Cons.prems show ?thesis by simp
  next
    case False
    with Cons have rest: "selectedAndNotInTag tags rest = Inl TypeError" by simp
    show ?thesis
    proof (cases "selected_opt x")
      case False
      with rest show ?thesis by simp
    next
      case True
      show ?thesis
      proof (cases "inSomeTag tags (value_opt x)")
        case (Inl e)
        from inSomeTag_throws_only[OF Inl] Inl True show ?thesis by simp
      next
        case (Inr found)
        with True rest show ?thesis by simp
      qed
    qed
  qed
qed

text \<open>
  Claim C10, as the spec states it, fails: a tag without \<^verbatim>\<open>values\<close> in a non-empty
  \<^verbatim>\<open>current.tags\<close> does not make the step throw when no option is selected, because the
  filter leaves an unselected option before it reads any tag. On a state with such a tag
  and one unselected option \<open>updateLinkText\<close> returns a state, and so does the reducer on
  \<^verbatim>\<open>setCurrentVariableValue\<close> with a selection that carries the tag and matches no option.
\<close>

theorem tag_without_values_not_read:
  "tags_cur (current (variable (taggedState [newOption (JStr ''a'') (JStr ''a'')])))
      = Some [tagWithoutValues]
   \<and> values_tag tagWithoutValues = None
   \<and> updateLinkText (taggedState [newOption (JStr ''a'') (JStr ''a'')])
      = Inr ((taggedState [newOption (JStr ''a'') (JStr ''a'')])
               \<lparr>picker := initialQueryVariablePickerState\<lparr>linkText := Scalar (JStr '''')\<rparr>\<rparr>)
   \<and> \<not> isl (queryVariableReducer noRegex (withOptions [newOption (JStr ''a'') (JStr ''a'')])
        (SetCurrentVariableValue exampleIdent taggedSelection))"
  by (simp add: taggedState_def taggedSelection_def tagWithoutValues_def withOptions_def
      initialQueryVariableState_def initialQueryVariableModelState_def
      initialQueryVariablePickerState_def newOption_def joinCurrentText_def selectCurrent_def
      updateLinkText_def updateOptions_def updateSelectedValues_def updateSelectedTags_def)

text \<open>
  Claim C10, amended: \<open>updateLinkText\<close> returns a state whenever every tag of
  \<^verbatim>\<open>current.tags\<close> has its \<^verbatim>\<open>values\<close> array (or there are no tags); it throws, a TypeError,
  exactly when some selected option meets, in \<^verbatim>\<open>current.tags\<close>, a tag without \<^verbatim>\<open>values\<close>
  before any tag whose values contain the option's value. A tag without \<^verbatim>\<open>values\<close> is
  not read when no option is selected or when an earlier tag lists the value of every
  selected option.
\<close>

theorem updateLinkText_throws_iff:
  "(tagsHaveValues state \<longrightarrow> (\<exists>state'. updateLinkText state = Inr state'))
   \<and> (updateLinkText state = Inl e \<longleftrightarrow>
        e = TypeError \<and>
        (\<exists>tags. tags_cur (current (variable state)) = Some tags \<and>
           (\<exists>opt \<in> set (options_var (variable state)). selected_opt opt \<and>
              (\<exists>pre tag post. tags = pre @ tag # post \<and> values_tag tag = None \<and>
                 (\<forall>t \<in> set pre. \<exists>vs. values_tag t = Some vs \<and> value_opt opt \<notin> set vs)))))"
proof (rule conjI)
  show "tagsHaveValues state \<longrightarrow> (\<exists>state'. updateLinkText state = Inr state')"
    using updateLinkText_total by blast
next
  show "updateLinkText state = Inl e \<longleftrightarrow>
        e = TypeError \<and>
        (\<exists>tags. tags_cur (current (variable state)) = Some tags \<and>
           (\<exists>opt \<in> set (options_var (variable state)). selected_opt opt \<and>
              (\<exists>pre tag post. tags = pre @ tag # post \<and> values_tag tag = None \<and>
                 (\<forall>t \<in> set pre. \<exists>vs. values_tag t = Some vs \<and> value_opt opt \<notin> set vs))))"
  proof (rule iffI)
  assume thrown: "updateLinkText state = Inl e"
  then obtain tags where tags: "tags_cur (current (variable state)) = Some tags"
    and sel: "selectedAndNotInTag tags (options_var (variable state)) = Inl e"
    by (auto simp: updateLinkText_def Let_def split: option.splits if_splits sum.splits)
  from selectedAndNotInTag_throws_only[OF sel] obtain opt
    where opt: "opt \<in> set (options_var (variable state))" "selected_opt opt"
      and tag: "inSomeTag tags (value_opt opt) = Inl e" by blast
  from inSomeTag_throws_only[OF tag] tags opt
  show "e = TypeError \<and>
        (\<exists>tags. tags_cur (current (variable state)) = Some tags \<and>
           (\<exists>opt \<in> set (options_var (variable state)). selected_opt opt \<and>
              (\<exists>pre tag post. tags = pre @ tag # post \<and> values_tag tag = None \<and>
                 (\<forall>t \<in> set pre. \<exists>vs. values_tag t = Some vs \<and> value_opt opt \<notin> set vs))))"
    by blast
next
  assume "e = TypeError \<and>
        (\<exists>tags. tags_cur (current (variable state)) = Some tags \<and>
           (\<exists>opt \<in> set (options_var (variable state)). selected_opt opt \<and>
              (\<exists>pre tag post. tags = pre @ tag # post \<and> values_tag tag = None \<and>
                 (\<forall>t \<in> set pre. \<exists>vs. values_tag t = Some vs \<and> value_opt opt \<notin> set vs))))"
  then obtain tags opt pre tag post where e: "e = TypeError"
    and tags: "tags_cur (current (variable state)) = Some tags"
    and opt: "opt \<in> set (options_var (variable state))" "selected_opt opt"
    and d: "tags = pre @ tag # post" and n: "values_tag tag = None"
    and p: "\<forall>t \<in> set pre. \<exists>vs. values_tag t = Some vs \<and> value_opt opt \<notin> set vs"
    by blast
  from inSomeTag_throws[OF n p, of post] d
  have "inSomeTag tags (value_opt opt) = Inl TypeError" by simp
  from selectedAndNotInTag_throws[OF opt this]
  have "selectedAndNotInTag tags (options_var (variable state)) = Inl TypeError" .
  with tags d e show "updateLinkText state = Inl e"
    by (simp add: updateLinkText_def Let_def)
qed
qed

theorem updateLinkText_throws_iff_witness:
  "updateLinkText (taggedState [(newOption (JStr ''a'') (JStr ''a''))\<lparr>selected_opt := True\<rparr>])
     = Inl TypeError
   \<and> tagsHaveValues (withOptions [(newOption (JStr ''a'') (JStr ''a''))\<lparr>selected_opt := True\<rparr>])
   \<and> (\<exists>state'. updateLinkText
          (withOptions [(newOption (JStr ''a'') (JStr ''a''))\<lparr>selected_opt := True\<rparr>]) = Inr state')"
proof -
  define opt where "opt = (newOption (JStr ''a'') (JStr ''a''))\<lparr>selected_opt := True\<rparr>"
  have tags: "tags_cur (current (variable (taggedState [opt]))) = Some ([] @ tagWithoutValues # [])"
    by (simp add: taggedState_def taggedSelection_def)
  have "TypeError = TypeError \<and>
        (\<exists>tags. tags_cur (current (variable (taggedState [opt]))) = Some tags \<and>
           (\<exists>o' \<in> set (options_var (variable (taggedState [opt]))). selected_opt o' \<and>
              (\<exists>pre tag post. tags = pre @ tag # post \<and> values_tag tag = None \<and>
                 (\<forall>t \<in> set pre. \<exists>vs. values_tag t = Some vs \<and> value_opt o' \<notin> set vs))))"
  proof (intro conjI exI bexI)
    show "tags_cur (current (variable (taggedState [opt]))) = Some ([] @ tagWithoutValues # [])"
      by (rule tags)
    show "values_tag tagWithoutValues = None" by (simp add: tagWithoutValues_def)
    show "\<forall>t \<in> set []. \<exists>vs. values_tag t = Some vs \<and> value_opt opt \<notin> set vs" by simp
    show "selected_opt opt" by (simp add: opt_def)
    show "opt \<in> set (options_var (variable (taggedState [opt])))" by (simp add: taggedState_def)
  qed simp_all
  with updateLinkText_throws_iff[of "taggedState [opt]" TypeError]
  have thrown: "updateLinkText (taggedState [opt]) = Inl TypeError" by blast
  have t: "tagsHaveValues (withOptions [opt])"
    by (simp add: withOptions_def tagsHaveValues_def initialQueryVariableModelState_def)
  with updateLinkText_throws_iff[of "withOptions [opt]" TypeError]
  have "\<exists>state'. updateLinkText (withOptions [opt]) = Inr state'" by blast
  with thrown t show ?thesis unfolding opt_def by blast
qed

end
